theory Spec2Isabelle
  imports Main "HOL-Library.Word"
begin

section \<open>The Elgato Game Capture HD front-end (elgato-gchd.c)\<close>

text \<open>
  The program is one C file: a \<open>main\<close> that parses its options, checks two firmware
  files, opens the USB device, claims its interface, creates a FIFO, runs one of seven
  configuration scripts and then relays data until a signal clears \<open>is_running\<close>; every
  path past option parsing ends in \<open>clean_up\<close>.

  The embedding threads the global variables through every function as a record and
  appends every call of an external function (libusb, the file system, stderr, the
  configuration scripts, \<open>receive_data\<close>, \<open>remove_elgato\<close>) to a trace. What the external
  world answers is read from an environment record.
\<close>

subsection \<open>Constants\<close>

definition ELGATO_VENDOR :: "16 word" where "ELGATO_VENDOR = 0x0fd9"
definition GAME_CAPTURE_HD_PID_0 :: "16 word" where "GAME_CAPTURE_HD_PID_0 = 0x0044"
definition GAME_CAPTURE_HD_PID_1 :: "16 word" where "GAME_CAPTURE_HD_PID_1 = 0x004e"
definition GAME_CAPTURE_HD_PID_2 :: "16 word" where "GAME_CAPTURE_HD_PID_2 = 0x0051"
definition GAME_CAPTURE_HD_PID_3 :: "16 word" where "GAME_CAPTURE_HD_PID_3 = 0x005d"

definition INTERFACE_NUM :: int where "INTERFACE_NUM = 0x00"
definition CONFIGURATION :: int where "CONFIGURATION = 0x01"

text \<open>\<open>EXIT_FAILURE\<close> is the C library's; it is 1 on the platforms libusb-1.0 runs on.\<close>

definition EXIT_FAILURE :: int where "EXIT_FAILURE = 1"

definition fifo_path :: string where "fifo_path = ''/tmp/elgato_gchd.ts''"

text \<open>The values of \<open>enum video_resoltion\<close>; \<open>main\<close> keeps the choice in an \<open>int\<close>.\<close>

definition v720p :: int where "v720p = 0"
definition v1080p :: int where "v1080p = 1"
definition v576i :: int where "v576i = 2"
definition vc576p :: int where "vc576p = 3"
definition vc720p :: int where "vc720p = 4"
definition vc1080i :: int where "vc1080i = 5"
definition vc1080p :: int where "vc1080p = 6"

subsection \<open>Signals, external calls and the trace\<close>

text \<open>
  The three signals whose disposition \<open>main\<close> sets. Every other signal keeps its default
  disposition and is outside the model.
\<close>

datatype signal = SIGINT | SIGTERM | SIGPIPE

datatype disposition = Handler | SIG_IGN

text \<open>
  The two firmware paths are macros of \<open>common.h\<close>, which is not among the sources; they
  are kept symbolic.
\<close>

datatype firmware = FW_MB86H57_H58_IDLE | FW_MB86H57_H58_ENC

text \<open>One constructor for each of the seven configuration functions \<open>main\<close> can call.\<close>

datatype script =
    Dev_720p | Dev_1080p | Dev_576i
  | Dev_component_576p | Dev_component_720p | Dev_component_1080i | Dev_component_1080p

text \<open>
  One event for each call that leaves the file. A call of \<open>fprintf\<close> on stderr is
  recorded with its text, without the final newline.
\<close>

datatype event =
    Signal_set signal disposition
  | Stderr string
  | Access firmware
  | Libusb_init
  | Libusb_open "16 word" "16 word"
  | Kernel_driver_active int
  | Detach_kernel_driver int
  | Set_configuration int
  | Claim_interface int
  | Mkfifo string
  | Open_fifo string
  | Configure_dev script
  | Receive_data
  | Remove_elgato
  | Release_interface int
  | Libusb_close
  | Libusb_exit
  | Close_fd int
  | Unlink string

text \<open>
  A device handle is an opaque pointer; \<open>None\<close> is \<open>NULL\<close>. The globals of the file:
  \<open>is_running\<close>, \<open>libusb_ret\<close>, \<open>fd_fifo\<close>, \<open>init_has_been_run\<close> with their initialisers,
  and \<open>devh\<close>, which is declared in \<open>common.h\<close> and, as a global without initialiser,
  starts as \<open>NULL\<close>.
\<close>

type_synonym handle = nat

record state =
  is_running :: int
  libusb_ret :: int
  fd_fifo :: int
  init_has_been_run :: int
  devh :: "handle option"
  trace :: "event list"

definition init_state :: state where
  "init_state =
     \<lparr>is_running = 1, libusb_ret = 1, fd_fifo = 0, init_has_been_run = 0,
      devh = None, trace = []\<rparr>"

definition emit :: "event \<Rightarrow> state \<Rightarrow> state" where
  "emit ev s = s\<lparr>trace := trace s @ [ev]\<rparr>"

text \<open>
  What the outside world answers. \<open>sigs_setup\<close> are the signals delivered before the
  test of \<open>is_running\<close> that guards the configuration (for instance while \<open>open\<close> waits
  for a reader of the FIFO), \<open>sigs_config\<close> those delivered between that test and the
  first test of the capture loop, and \<open>sigs_stream\<close> holds, for each call of
  \<open>receive_data\<close>, the signals delivered before the loop tests \<open>is_running\<close> again. After
  the last entry of \<open>sigs_stream\<close> no further signal arrives. \<open>is_running\<close> is read at
  these tests only, so a signal changes the flow nowhere else; on a path that leaves the
  setup through \<open>goto end\<close> the flag is never read and signals are not recorded.
  \<open>configure_ok\<close> tells whether the configuration script succeeds.
\<close>

record env =
  fw_present :: "firmware \<Rightarrow> bool"
  usb_init_ret :: int
  usb_open :: "16 word \<Rightarrow> 16 word \<Rightarrow> handle option"
  kernel_driver :: int
  set_configuration_ret :: int
  claim_interface_ret :: int
  fifo_fd :: int
  configure_ok :: bool
  sigs_setup :: "signal list"
  sigs_config :: "signal list"
  sigs_stream :: "signal list list"

subsection \<open>The signal handler\<close>

text \<open>The text the handler prints, its inner newlines written as spaces.\<close>

definition stop_message :: string where
  "stop_message =
     ''Stop signal received. Your device is going to be reset. Please wait and do not interrupt or unplug your device.''"

definition sig_handler :: "signal \<Rightarrow> state \<Rightarrow> state" where
  "sig_handler sig s0 =
     (let s1 = emit (Stderr stop_message) s0
      in case sig of
           SIGINT \<Rightarrow> s1\<lparr>is_running := 0\<rparr>
         | SIGTERM \<Rightarrow> s1\<lparr>is_running := 0\<rparr>
         | _ \<Rightarrow> s1)"

text \<open>
  Delivery follows the three calls of \<open>signal\<close> at the start of \<open>main\<close>: \<open>SIGINT\<close> and
  \<open>SIGTERM\<close> run the handler, \<open>SIGPIPE\<close> is ignored.
\<close>

definition deliver :: "signal \<Rightarrow> state \<Rightarrow> state" where
  "deliver sig s = (if sig = SIGINT \<or> sig = SIGTERM then sig_handler sig s else s)"

fun deliver_all :: "signal list \<Rightarrow> state \<Rightarrow> state" where
  "deliver_all [] s = s"
| "deliver_all (sig # sigs) s = deliver_all sigs (deliver sig s)"

subsection \<open>Device location and interface acquisition\<close>

definition libusb_open_device_with_vid_pid ::
  "env \<Rightarrow> 16 word \<Rightarrow> 16 word \<Rightarrow> state \<Rightarrow> state" where
  "libusb_open_device_with_vid_pid e vid pid s =
     (emit (Libusb_open vid pid) s)\<lparr>devh := usb_open e vid pid\<rparr>"

definition init_dev_handler :: "env \<Rightarrow> state \<Rightarrow> int \<times> state" where
  "init_dev_handler e s0 =
     (let s1 = s0\<lparr>devh := None\<rparr>;
          s2 = (emit Libusb_init s1)\<lparr>libusb_ret := usb_init_ret e\<rparr>
      in if libusb_ret s2 \<noteq> 0 then (1, emit (Stderr ''Error initializing libusb.'') s2)
         else
           let s3 = libusb_open_device_with_vid_pid e ELGATO_VENDOR GAME_CAPTURE_HD_PID_0 s2
           in if devh s3 \<noteq> None then (0, s3)
              else
                let s4 = libusb_open_device_with_vid_pid e ELGATO_VENDOR GAME_CAPTURE_HD_PID_1 s3
                in if devh s4 \<noteq> None then (0, s4)
                   else
                     let s5 = libusb_open_device_with_vid_pid e ELGATO_VENDOR GAME_CAPTURE_HD_PID_2 s4
                     in if devh s5 \<noteq> None then (0, s5)
                        else
                          let s6 = libusb_open_device_with_vid_pid e ELGATO_VENDOR GAME_CAPTURE_HD_PID_3 s5
                          in if devh s6 \<noteq> None
                             then (1, emit (Stderr ''This revision of the Elgato Game Capture HD is currently not supported.'') s6)
                             else (1, s6))"

definition get_interface :: "env \<Rightarrow> state \<Rightarrow> int \<times> state" where
  "get_interface e s0 =
     (let s1 = emit (Kernel_driver_active INTERFACE_NUM) s0;
          s2 = (if kernel_driver e \<noteq> 0 then emit (Detach_kernel_driver INTERFACE_NUM) s1 else s1);
          s3 = emit (Set_configuration CONFIGURATION) s2
      in if set_configuration_ret e \<noteq> 0
         then (1, emit (Stderr ''Could not activate configuration.'') s3)
         else
           let s4 = emit (Claim_interface INTERFACE_NUM) s3
           in if claim_interface_ret e \<noteq> 0
              then (1, emit (Stderr ''Failed to claim interface.'') s4)
              else (0, s4))"

subsection \<open>Functions of the repository that are not in this file\<close>

text \<open>
  Modelled from the spec: the seven functions \<open>configure_dev_*\<close> (declared in the
  \<open>init_*.h\<close> headers) are not among the sources. The specification says of the
  Resolution Configurator that each key replays one fixed script, that it can succeed or
  fail with a device command error, and that "on success [it] sets InitializedFlag". The
  flag is the global \<open>init_has_been_run\<close>, which nothing in elgato-gchd.c writes.
\<close>

definition configure_dev :: "env \<Rightarrow> script \<Rightarrow> state \<Rightarrow> state" where
  "configure_dev e k s0 =
     (let s1 = emit (Configure_dev k) s0
      in if configure_ok e then s1\<lparr>init_has_been_run := 1\<rparr> else s1)"

text \<open>
  Modelled from the spec: \<open>receive_data\<close> (commands.h) and \<open>remove_elgato\<close> (remove.h) are
  not among the sources either. The specification makes the first forward one payload
  unit from the device to the sink and the second send the device-reset command; \<open>main\<close>
  and \<open>clean_up\<close> use no result of them, and neither is said to write a global of this
  file, so each is recorded as a call. \<open>is_running\<close> is \<open>static\<close>: no function outside
  the file can name it.
\<close>

definition receive_data :: "state \<Rightarrow> state" where
  "receive_data s = emit Receive_data s"

definition remove_elgato :: "state \<Rightarrow> state" where
  "remove_elgato s = emit Remove_elgato s"

subsection \<open>Cleanup\<close>

definition clean_up :: "state \<Rightarrow> state" where
  "clean_up s0 =
     (let s1 = (if devh s0 \<noteq> None
                then
                  let s' = (if init_has_been_run s0 \<noteq> 0
                            then emit (Stderr ''Device has been reset.'') (remove_elgato s0)
                            else s0)
                  in emit Libusb_close (emit (Release_interface INTERFACE_NUM) s')
                else s0);
          s2 = (if libusb_ret s1 = 0 then emit Libusb_exit s1 else s1);
          s3 = emit (Unlink fifo_path) (emit (Close_fd (fd_fifo s2)) s2)
      in emit (Stderr ''Terminating.'') s3)"

subsection \<open>Option parsing\<close>

text \<open>
  \<open>getopt_long\<close> is the C library's. The model takes what its successive calls return
  before the final \<open>-1\<close>: the option character and, for \<open>r\<close>, the text of \<open>optarg\<close>.
\<close>

datatype usage_error =
  Unsupported_resolution | Missing_argument | Unrecognized_option | Unexpected_error

fun parse_opts :: "(char \<times> string) list \<Rightarrow> int \<Rightarrow> usage_error + int" where
  "parse_opts [] resolution = Inr resolution"
| "parse_opts ((opt, optarg) # rest) resolution =
     (if opt = CHR ''r'' then
        (if optarg = ''720p'' then parse_opts rest v720p
         else if optarg = ''1080p'' then parse_opts rest v1080p
         else if optarg = ''576i'' then parse_opts rest v576i
         else if optarg = ''c576p'' then parse_opts rest vc576p
         else if optarg = ''c720p'' then parse_opts rest vc720p
         else if optarg = ''c1080i'' then parse_opts rest vc1080i
         else if optarg = ''c1080p'' then parse_opts rest vc1080p
         else Inl Unsupported_resolution)
      else if opt = CHR '':'' then Inl Missing_argument
      else if opt = CHR ''?'' then Inl Unrecognized_option
      else Inl Unexpected_error)"

fun usage_message :: "usage_error \<Rightarrow> string" where
  "usage_message Unsupported_resolution = ''Unsupported resolution.''"
| "usage_message Missing_argument = ''Missing argument.''"
| "usage_message Unrecognized_option = ''Unrecognized option.''"
| "usage_message Unexpected_error = ''Unexpected error.''"

subsection \<open>The main flow\<close>

text \<open>The test of the two firmware files; \<open>||\<close> does not look at the second file when the first is missing.\<close>

definition firmware_missing :: "env \<Rightarrow> state \<Rightarrow> bool \<times> state" where
  "firmware_missing e s0 =
     (let s1 = emit (Access FW_MB86H57_H58_IDLE) s0
      in if \<not> fw_present e FW_MB86H57_H58_IDLE then (True, s1)
         else
           let s2 = emit (Access FW_MB86H57_H58_ENC) s1
           in (\<not> fw_present e FW_MB86H57_H58_ENC, s2))"

text \<open>The \<open>switch\<close> over the resolution, with its \<open>default\<close> branch.\<close>

definition configure_switch :: "env \<Rightarrow> int \<Rightarrow> state \<Rightarrow> state" where
  "configure_switch e resolution s =
     (if resolution = v720p then configure_dev e Dev_720p s
      else if resolution = v1080p then configure_dev e Dev_1080p s
      else if resolution = v576i then configure_dev e Dev_576i s
      else if resolution = vc576p then configure_dev e Dev_component_576p s
      else if resolution = vc720p then configure_dev e Dev_component_720p s
      else if resolution = vc1080i then configure_dev e Dev_component_1080i s
      else if resolution = vc1080p then configure_dev e Dev_component_1080p s
      else clean_up s)"

text \<open>
  The capture loop. Each entry of the schedule is one call of \<open>receive_data\<close> together
  with the signals delivered before the next test. When the schedule is used up and
  \<open>is_running\<close> is still set, no signal will ever clear it and the loop does not end:
  the result is \<open>None\<close>.
\<close>

fun capture_loop :: "signal list list \<Rightarrow> state \<Rightarrow> state option" where
  "capture_loop [] s = (if is_running s \<noteq> 0 then None else Some s)"
| "capture_loop (sigs # sched) s =
     (if is_running s \<noteq> 0 then capture_loop sched (deliver_all sigs (receive_data s))
      else Some s)"

text \<open>
  The body of \<open>main\<close> between option parsing and the label \<open>end\<close>, in the order of
  the file. \<open>main_setup\<close> is the part with the three \<open>goto end\<close>: \<open>Inl\<close> is the state
  in which a \<open>goto\<close> leaves it, \<open>Inr\<close> the state in which the flow goes on.
\<close>

definition main_setup :: "env \<Rightarrow> state \<Rightarrow> state + state" where
  "main_setup e s0 =
     (case firmware_missing e s0 of
        (True, s1) \<Rightarrow> Inl (emit (Stderr ''Firmware files missing.'') s1)
      | (False, s1) \<Rightarrow>
          (case init_dev_handler e s1 of (r2, s2) \<Rightarrow>
             if r2 \<noteq> 0 then Inl (emit (Stderr ''Unable to find device.'') s2)
             else
               (case get_interface e s2 of (r3, s3) \<Rightarrow>
                  if r3 \<noteq> 0 then Inl (emit (Stderr ''Could not claim interface.'') s3)
                  else Inr s3)))"

text \<open>Creating and opening the FIFO; \<open>open\<close> returns when a reader has opened it.\<close>

definition open_sink :: "env \<Rightarrow> state \<Rightarrow> state" where
  "open_sink e s0 =
     (let s1 = emit (Mkfifo fifo_path) s0;
          s2 = emit (Stderr (fifo_path @ '' has been created. Waiting for user to open it.'')) s1
      in (emit (Open_fifo fifo_path) s2)\<lparr>fd_fifo := fifo_fd e\<rparr>)"

text \<open>The configuration, guarded by \<open>is_running\<close>.\<close>

definition configure_stage :: "env \<Rightarrow> int \<Rightarrow> state \<Rightarrow> state" where
  "configure_stage e resolution s0 =
     (if is_running s0 \<noteq> 0
      then
        let s1 = emit (Stderr ''Running. Initializing device.'') s0;
            s2 = configure_switch e resolution s1
        in emit (Stderr ''Streaming data from device now.'') s2
      else s0)"

text \<open>
  From the firmware test to the label \<open>end\<close>; the result is the state in which
  \<open>clean_up\<close> is entered there, or \<open>None\<close> when the capture loop never ends.
\<close>

definition main_body :: "env \<Rightarrow> int \<Rightarrow> state \<Rightarrow> state option" where
  "main_body e resolution s0 =
     (case main_setup e s0 of
        Inl s \<Rightarrow> Some s
      | Inr s1 \<Rightarrow>
          let s2 = open_sink e s1;
              s3 = deliver_all (sigs_setup e) s2;
              s4 = configure_stage e resolution s3;
              s5 = deliver_all (sigs_config e) s4
          in capture_loop (sigs_stream e) s5)"

text \<open>The three calls of \<open>signal\<close> at the start of \<open>main\<close>.\<close>

definition install_handlers :: "state \<Rightarrow> state" where
  "install_handlers s0 =
     (let s1 = emit (Signal_set SIGINT Handler) s0;
          s2 = emit (Signal_set SIGTERM Handler) s1
      in emit (Signal_set SIGPIPE SIG_IGN) s2)"

text \<open>
  \<open>main\<close>: the exit status and the final state, or \<open>None\<close> when the capture loop never
  ends. A usage error returns \<open>EXIT_FAILURE\<close> at once; every other path goes through the
  label \<open>end\<close>, calls \<open>clean_up\<close> and returns 0.
\<close>

definition main :: "env \<Rightarrow> (char \<times> string) list \<Rightarrow> (int \<times> state) option" where
  "main e args =
     (let s0 = install_handlers init_state
      in case parse_opts args 0 of
           Inl err \<Rightarrow> Some (EXIT_FAILURE, emit (Stderr (usage_message err)) s0)
         | Inr resolution \<Rightarrow>
             (case main_body e resolution s0 of
                None \<Rightarrow> None
              | Some s \<Rightarrow> Some (0, clean_up s)))"

subsection \<open>Vocabulary of the statements\<close>

text \<open>The trace of a run that ends.\<close>

definition run_trace :: "env \<Rightarrow> (char \<times> string) list \<Rightarrow> event list option" where
  "run_trace e args = map_option (\<lambda>r. trace (snd r)) (main e args)"

text \<open>A termination request is a signal that runs the handler.\<close>

definition stop_signal :: "signal \<Rightarrow> bool" where
  "stop_signal sig = (sig = SIGINT \<or> sig = SIGTERM)"

definition stop_requested :: "env \<Rightarrow> bool" where
  "stop_requested e =
     list_ex stop_signal (sigs_setup e @ sigs_config e @ concat (sigs_stream e))"

text \<open>
  The environment lets the setup succeed: both firmware files are there, libusb comes up,
  a device with one of the three supported product ids opens, and the configuration and
  the claim of the interface succeed.
\<close>

definition device_found :: "env \<Rightarrow> bool" where
  "device_found e =
     (usb_open e ELGATO_VENDOR GAME_CAPTURE_HD_PID_0 \<noteq> None
      \<or> usb_open e ELGATO_VENDOR GAME_CAPTURE_HD_PID_1 \<noteq> None
      \<or> usb_open e ELGATO_VENDOR GAME_CAPTURE_HD_PID_2 \<noteq> None)"

definition firmware_ok :: "env \<Rightarrow> bool" where
  "firmware_ok e = (fw_present e FW_MB86H57_H58_IDLE \<and> fw_present e FW_MB86H57_H58_ENC)"

definition setup_ok :: "env \<Rightarrow> bool" where
  "setup_ok e =
     (firmware_ok e
      \<and> usb_init_ret e = 0 \<and> device_found e
      \<and> set_configuration_ret e = 0 \<and> claim_interface_ret e = 0)"

text \<open>The calls that only \<open>clean_up\<close> makes, with its two lines on stderr.\<close>

fun is_cleanup_event :: "event \<Rightarrow> bool" where
  "is_cleanup_event Remove_elgato = True"
| "is_cleanup_event (Release_interface _) = True"
| "is_cleanup_event Libusb_close = True"
| "is_cleanup_event Libusb_exit = True"
| "is_cleanup_event (Close_fd _) = True"
| "is_cleanup_event (Unlink _) = True"
| "is_cleanup_event (Stderr m) = (m = ''Device has been reset.'' \<or> m = ''Terminating.'')"
| "is_cleanup_event _ = False"

text \<open>
  Every call of \<open>clean_up\<close> ends with the line \<open>Terminating.\<close>, and nothing else writes
  that line: the number of these lines is the number of executions of \<open>clean_up\<close>.
\<close>

definition clean_up_runs :: "event list \<Rightarrow> nat" where
  "clean_up_runs tr = count_list tr (Stderr ''Terminating.'')"

text \<open>Calls of a configuration script and of \<open>receive_data\<close>.\<close>

fun is_stream_event :: "event \<Rightarrow> bool" where
  "is_stream_event (Configure_dev _) = True"
| "is_stream_event Receive_data = True"
| "is_stream_event _ = False"

text \<open>Calls that touch the USB stack or the device.\<close>

fun usb_access :: "event \<Rightarrow> bool" where
  "usb_access Libusb_init = True"
| "usb_access (Libusb_open _ _) = True"
| "usb_access (Kernel_driver_active _) = True"
| "usb_access (Detach_kernel_driver _) = True"
| "usb_access (Set_configuration _) = True"
| "usb_access (Claim_interface _) = True"
| "usb_access (Configure_dev _) = True"
| "usb_access Receive_data = True"
| "usb_access Remove_elgato = True"
| "usb_access (Release_interface _) = True"
| "usb_access Libusb_close = True"
| "usb_access Libusb_exit = True"
| "usb_access _ = False"

text \<open>
  The specification's words for the command line: seven tokens, each with its
  resolution and its configuration script.
\<close>

definition supported_tokens :: "(string \<times> int) list" where
  "supported_tokens =
     [(''720p'', v720p), (''1080p'', v1080p), (''576i'', v576i), (''c576p'', vc576p),
      (''c720p'', vc720p), (''c1080i'', vc1080i), (''c1080p'', vc1080p)]"

definition token_script :: "(string \<times> script) list" where
  "token_script =
     [(''720p'', Dev_720p), (''1080p'', Dev_1080p), (''576i'', Dev_576i),
      (''c576p'', Dev_component_576p), (''c720p'', Dev_component_720p),
      (''c1080i'', Dev_component_1080i), (''c1080p'', Dev_component_1080p)]"

text \<open>The cases of the \<open>switch\<close> in \<open>main\<close>, as a table.\<close>

definition resolution_script :: "(int \<times> script) list" where
  "resolution_script =
     [(v720p, Dev_720p), (v1080p, Dev_1080p), (v576i, Dev_576i),
      (vc576p, Dev_component_576p), (vc720p, Dev_component_720p),
      (vc1080i, Dev_component_1080i), (vc1080p, Dev_component_1080p)]"

text \<open>
  The specification's words for the Device Locator: an ordered list of candidates, the
  first that opens wins.
\<close>

definition candidates :: "16 word list" where
  "candidates =
     [GAME_CAPTURE_HD_PID_0, GAME_CAPTURE_HD_PID_1, GAME_CAPTURE_HD_PID_2,
      GAME_CAPTURE_HD_PID_3]"

definition first_match :: "env \<Rightarrow> 16 word option" where
  "first_match e = find (\<lambda>pid. usb_open e ELGATO_VENDOR pid \<noteq> None) candidates"

definition tried :: "env \<Rightarrow> 16 word list" where
  "tried e =
     (case first_match e of
        None \<Rightarrow> candidates
      | Some pid \<Rightarrow> takeWhile (\<lambda>p. p \<noteq> pid) candidates @ [pid])"

text \<open>The handle the first match yields, \<open>None\<close> when no candidate opens.\<close>

definition opened :: "env \<Rightarrow> handle option" where
  "opened e =
     (case first_match e of
        None \<Rightarrow> None
      | Some pid \<Rightarrow> usb_open e ELGATO_VENDOR pid)"

definition unsupported_message :: string where
  "unsupported_message =
     ''This revision of the Elgato Game Capture HD is currently not supported.''"

subsection \<open>Environments used as concrete inputs\<close>

text \<open>
  A device of the second supported revision, everything succeeds, and \<open>SIGINT\<close> arrives
  during the third call of \<open>receive_data\<close>.
\<close>

definition env_streaming :: env where
  "env_streaming =
     \<lparr>fw_present = (\<lambda>_. True), usb_init_ret = 0,
      usb_open = (\<lambda>vid pid. if vid = ELGATO_VENDOR \<and> pid = GAME_CAPTURE_HD_PID_1
                            then Some 7 else None),
      kernel_driver = 1, set_configuration_ret = 0, claim_interface_ret = 0,
      fifo_fd = 3, configure_ok = True,
      sigs_setup = [], sigs_config = [], sigs_stream = [[], [SIGPIPE], [SIGINT]]\<rparr>"

text \<open>The same device, but the claim of the interface fails.\<close>

definition env_claim_fails :: env where
  "env_claim_fails = env_streaming\<lparr>claim_interface_ret := - 6\<rparr>"

text \<open>The first firmware file is missing.\<close>

definition env_no_firmware :: env where
  "env_no_firmware = env_streaming\<lparr>fw_present := (\<lambda>f. f = FW_MB86H57_H58_ENC)\<rparr>"

text \<open>Only a device of the unsupported revision is plugged in; no device at all.\<close>

definition env_unsupported :: env where
  "env_unsupported =
     env_streaming\<lparr>usb_open := (\<lambda>vid pid. if vid = ELGATO_VENDOR \<and> pid = GAME_CAPTURE_HD_PID_3
                                          then Some 7 else None)\<rparr>"

definition env_absent :: env where
  "env_absent = env_streaming\<lparr>usb_open := (\<lambda>vid pid. None)\<rparr>"

text \<open>\<open>SIGTERM\<close> arrives while \<open>open\<close> waits for a reader of the FIFO.\<close>

definition env_early_stop :: env where
  "env_early_stop = env_streaming\<lparr>sigs_setup := [SIGTERM], sigs_stream := []\<rparr>"

section \<open>Facts about the functions\<close>

subsection \<open>Elementary facts\<close>

lemma emit_simps [simp]:
  "trace (emit ev s) = trace s @ [ev]"
  "is_running (emit ev s) = is_running s"
  "libusb_ret (emit ev s) = libusb_ret s"
  "fd_fifo (emit ev s) = fd_fifo s"
  "init_has_been_run (emit ev s) = init_has_been_run s"
  "devh (emit ev s) = devh s"
  by (simp_all add: emit_def)

lemma stop_signal_simps [simp]:
  "stop_signal SIGINT" "stop_signal SIGTERM" "\<not> stop_signal SIGPIPE"
  by (simp_all add: stop_signal_def)

lemma deliver_fields [simp]:
  "libusb_ret (deliver sig s) = libusb_ret s"
  "fd_fifo (deliver sig s) = fd_fifo s"
  "init_has_been_run (deliver sig s) = init_has_been_run s"
  "devh (deliver sig s) = devh s"
  by (cases sig; simp add: deliver_def sig_handler_def)+

lemma deliver_is_running:
  "is_running (deliver sig s) = (if stop_signal sig then 0 else is_running s)"
  by (cases sig) (simp_all add: deliver_def sig_handler_def)

lemma deliver_trace:
  "trace (deliver sig s) = trace s @ (if stop_signal sig then [Stderr stop_message] else [])"
  by (cases sig) (simp_all add: deliver_def sig_handler_def)

lemma deliver_all_fields [simp]:
  "libusb_ret (deliver_all sigs s) = libusb_ret s"
  "fd_fifo (deliver_all sigs s) = fd_fifo s"
  "init_has_been_run (deliver_all sigs s) = init_has_been_run s"
  "devh (deliver_all sigs s) = devh s"
  by (induction sigs arbitrary: s; simp)+

lemma deliver_all_is_running:
  "is_running (deliver_all sigs s) = (if list_ex stop_signal sigs then 0 else is_running s)"
  by (induction sigs arbitrary: s) (simp_all add: deliver_is_running)

lemma deliver_all_trace:
  "trace (deliver_all sigs s) =
     trace s @ map (\<lambda>_. Stderr stop_message) (filter stop_signal sigs)"
  by (induction sigs arbitrary: s) (simp_all add: deliver_trace)

lemma filter_const_map [simp]:
  "filter P (map (\<lambda>_. c) xs) = (if P c then map (\<lambda>_. c) xs else [])"
  by (induction xs) simp_all

lemma stop_message_neq [simp]:
  "stop_message \<noteq> ''Device has been reset.''" "stop_message \<noteq> ''Terminating.''"
  by (simp_all add: stop_message_def)

lemma deliver_all_cleanup [simp]:
  "filter is_cleanup_event (trace (deliver_all sigs s)) = filter is_cleanup_event (trace s)"
  by (simp add: deliver_all_trace)

lemma deliver_all_stream [simp]:
  "filter is_stream_event (trace (deliver_all sigs s)) = filter is_stream_event (trace s)"
  by (simp add: deliver_all_trace)

subsection \<open>The setup\<close>

lemma firmware_missing_fst: "fst (firmware_missing e s) = (\<not> firmware_ok e)"
  by (simp add: firmware_missing_def firmware_ok_def Let_def)

lemma firmware_missing_fields [simp]:
  "is_running (snd (firmware_missing e s)) = is_running s"
  "libusb_ret (snd (firmware_missing e s)) = libusb_ret s"
  "fd_fifo (snd (firmware_missing e s)) = fd_fifo s"
  "init_has_been_run (snd (firmware_missing e s)) = init_has_been_run s"
  "devh (snd (firmware_missing e s)) = devh s"
  by (simp_all add: firmware_missing_def Let_def)

lemma firmware_missing_trace:
  "trace (snd (firmware_missing e s)) =
     trace s @ Access FW_MB86H57_H58_IDLE
       # (if fw_present e FW_MB86H57_H58_IDLE then [Access FW_MB86H57_H58_ENC] else [])"
  by (simp add: firmware_missing_def Let_def)

lemma init_dev_handler_fst:
  "fst (init_dev_handler e s) = (if usb_init_ret e = 0 \<and> device_found e then 0 else 1)"
  by (simp add: init_dev_handler_def libusb_open_device_with_vid_pid_def device_found_def Let_def)

lemma init_dev_handler_fields [simp]:
  "is_running (snd (init_dev_handler e s)) = is_running s"
  "fd_fifo (snd (init_dev_handler e s)) = fd_fifo s"
  "init_has_been_run (snd (init_dev_handler e s)) = init_has_been_run s"
  "libusb_ret (snd (init_dev_handler e s)) = usb_init_ret e"
  by (simp_all add: init_dev_handler_def libusb_open_device_with_vid_pid_def Let_def)

lemma init_dev_handler_devh:
  "fst (init_dev_handler e s) = 0 \<Longrightarrow> devh (snd (init_dev_handler e s)) \<noteq> None"
  by (simp add: init_dev_handler_def libusb_open_device_with_vid_pid_def Let_def
      split: if_splits)

lemma pids_distinct [simp]:
  "GAME_CAPTURE_HD_PID_0 \<noteq> GAME_CAPTURE_HD_PID_1" "GAME_CAPTURE_HD_PID_0 \<noteq> GAME_CAPTURE_HD_PID_2"
  "GAME_CAPTURE_HD_PID_0 \<noteq> GAME_CAPTURE_HD_PID_3" "GAME_CAPTURE_HD_PID_1 \<noteq> GAME_CAPTURE_HD_PID_2"
  "GAME_CAPTURE_HD_PID_1 \<noteq> GAME_CAPTURE_HD_PID_3" "GAME_CAPTURE_HD_PID_2 \<noteq> GAME_CAPTURE_HD_PID_3"
  "GAME_CAPTURE_HD_PID_1 \<noteq> GAME_CAPTURE_HD_PID_0" "GAME_CAPTURE_HD_PID_2 \<noteq> GAME_CAPTURE_HD_PID_0"
  "GAME_CAPTURE_HD_PID_3 \<noteq> GAME_CAPTURE_HD_PID_0" "GAME_CAPTURE_HD_PID_2 \<noteq> GAME_CAPTURE_HD_PID_1"
  "GAME_CAPTURE_HD_PID_3 \<noteq> GAME_CAPTURE_HD_PID_1" "GAME_CAPTURE_HD_PID_3 \<noteq> GAME_CAPTURE_HD_PID_2"
  by (simp_all add: GAME_CAPTURE_HD_PID_0_def GAME_CAPTURE_HD_PID_1_def
      GAME_CAPTURE_HD_PID_2_def GAME_CAPTURE_HD_PID_3_def)

lemma init_dev_handler_opened:
  "devh (snd (init_dev_handler e s)) = (if usb_init_ret e = 0 then opened e else None)"
  by (simp add: init_dev_handler_def libusb_open_device_with_vid_pid_def Let_def
      opened_def first_match_def candidates_def)

lemma init_dev_handler_trace:
  "trace (snd (init_dev_handler e s)) =
     trace s @ Libusb_init
       # (if usb_init_ret e \<noteq> 0 then [Stderr ''Error initializing libusb.'']
          else map (Libusb_open ELGATO_VENDOR) (tried e)
               @ (if first_match e = Some GAME_CAPTURE_HD_PID_3
                  then [Stderr unsupported_message] else []))"
  by (simp add: init_dev_handler_def libusb_open_device_with_vid_pid_def Let_def
      tried_def first_match_def candidates_def unsupported_message_def)

lemma init_dev_handler_cleanup [simp]:
  "filter is_cleanup_event (trace (snd (init_dev_handler e s))) =
     filter is_cleanup_event (trace s)"
  by (simp add: init_dev_handler_def libusb_open_device_with_vid_pid_def Let_def)

lemma init_dev_handler_stream [simp]:
  "filter is_stream_event (trace (snd (init_dev_handler e s))) =
     filter is_stream_event (trace s)"
  by (simp add: init_dev_handler_def libusb_open_device_with_vid_pid_def Let_def)

lemma get_interface_fst:
  "fst (get_interface e s) =
     (if set_configuration_ret e = 0 \<and> claim_interface_ret e = 0 then 0 else 1)"
  by (simp add: get_interface_def Let_def)

lemma get_interface_fields [simp]:
  "is_running (snd (get_interface e s)) = is_running s"
  "libusb_ret (snd (get_interface e s)) = libusb_ret s"
  "fd_fifo (snd (get_interface e s)) = fd_fifo s"
  "init_has_been_run (snd (get_interface e s)) = init_has_been_run s"
  "devh (snd (get_interface e s)) = devh s"
  by (simp_all add: get_interface_def Let_def)

lemma get_interface_cleanup [simp]:
  "filter is_cleanup_event (trace (snd (get_interface e s))) =
     filter is_cleanup_event (trace s)"
  by (simp add: get_interface_def Let_def)

lemma get_interface_stream [simp]:
  "filter is_stream_event (trace (snd (get_interface e s))) =
     filter is_stream_event (trace s)"
  by (simp add: get_interface_def Let_def)

lemma main_setup_cases:
  "main_setup e s0 =
     (if \<not> firmware_ok e
      then Inl (emit (Stderr ''Firmware files missing.'') (snd (firmware_missing e s0)))
      else if \<not> (usb_init_ret e = 0 \<and> device_found e)
      then Inl (emit (Stderr ''Unable to find device.'')
                  (snd (init_dev_handler e (snd (firmware_missing e s0)))))
      else if \<not> (set_configuration_ret e = 0 \<and> claim_interface_ret e = 0)
      then Inl (emit (Stderr ''Could not claim interface.'')
                  (snd (get_interface e (snd (init_dev_handler e (snd (firmware_missing e s0)))))))
      else Inr (snd (get_interface e (snd (init_dev_handler e (snd (firmware_missing e s0)))))))"
proof -
  obtain b1 s1 where f: "firmware_missing e s0 = (b1, s1)"
    by (cases "firmware_missing e s0")
  obtain r2 s2 where i: "init_dev_handler e s1 = (r2, s2)"
    by (cases "init_dev_handler e s1")
  obtain r3 s3 where g: "get_interface e s2 = (r3, s3)"
    by (cases "get_interface e s2")
  from f have b1: "b1 = (\<not> firmware_ok e)"
    using firmware_missing_fst [of e s0] by simp
  from i have r2: "r2 = (if usb_init_ret e = 0 \<and> device_found e then 0 else 1)"
    using init_dev_handler_fst [of e s1] by simp
  from g have r3: "r3 = (if set_configuration_ret e = 0 \<and> claim_interface_ret e = 0 then 0 else 1)"
    using get_interface_fst [of e s2] by simp
  show ?thesis
    by (simp add: main_setup_def f i g b1 r2 r3)
qed

lemma main_setup_Inr_iff: "(\<exists>s. main_setup e s0 = Inr s) \<longleftrightarrow> setup_ok e"
  by (auto simp: main_setup_cases setup_ok_def)

lemma main_setup_flags:
  assumes "main_setup e s0 = Inl s \<or> main_setup e s0 = Inr s"
  shows "libusb_ret s = (if firmware_ok e then usb_init_ret e else libusb_ret s0)"
    and "devh s = (if firmware_ok e then (if usb_init_ret e = 0 then opened e else None)
                   else devh s0)"
proof -
  let ?s1 = "snd (firmware_missing e s0)"
  let ?s2 = "snd (init_dev_handler e ?s1)"
  let ?s3 = "snd (get_interface e ?s2)"
  from assms consider
      "\<not> firmware_ok e" "s = emit (Stderr ''Firmware files missing.'') ?s1"
    | "firmware_ok e" "s = emit (Stderr ''Unable to find device.'') ?s2"
    | "firmware_ok e" "s = emit (Stderr ''Could not claim interface.'') ?s3"
    | "firmware_ok e" "s = ?s3"
    unfolding main_setup_cases
    by (metis sum.inject(1) sum.inject(2) sum.distinct(1))
  then have "libusb_ret s = (if firmware_ok e then usb_init_ret e else libusb_ret s0)
      \<and> devh s = (if firmware_ok e then (if usb_init_ret e = 0 then opened e else None)
                   else devh s0)"
    by cases (simp_all add: init_dev_handler_opened)
  then show "libusb_ret s = (if firmware_ok e then usb_init_ret e else libusb_ret s0)"
    and "devh s = (if firmware_ok e then (if usb_init_ret e = 0 then opened e else None)
                   else devh s0)"
    by simp_all
qed

lemma main_setup_Inr:
  assumes "main_setup e s0 = Inr s"
  shows "setup_ok e" "devh s \<noteq> None" "libusb_ret s = 0"
    "is_running s = is_running s0" "fd_fifo s = fd_fifo s0"
    "init_has_been_run s = init_has_been_run s0"
    "filter is_cleanup_event (trace s) = filter is_cleanup_event (trace s0)"
    "filter is_stream_event (trace s) = filter is_stream_event (trace s0)"
proof -
  show "setup_ok e" using assms main_setup_Inr_iff by blast
  then have ok: "usb_init_ret e = 0" "device_found e"
    by (simp_all add: setup_ok_def)
  let ?s1 = "snd (firmware_missing e s0)"
  have s: "s = snd (get_interface e (snd (init_dev_handler e ?s1)))"
    using assms by (simp add: main_setup_cases split: if_splits)
  have "fst (init_dev_handler e ?s1) = 0"
    using ok by (simp add: init_dev_handler_fst)
  then show "devh s \<noteq> None"
    using init_dev_handler_devh [of e ?s1] by (simp add: s)
  show "libusb_ret s = 0" using ok by (simp add: s)
  show "is_running s = is_running s0" "fd_fifo s = fd_fifo s0"
    "init_has_been_run s = init_has_been_run s0"
    by (simp_all add: s)
  show "filter is_cleanup_event (trace s) = filter is_cleanup_event (trace s0)"
    "filter is_stream_event (trace s) = filter is_stream_event (trace s0)"
    by (simp_all add: s firmware_missing_trace)
qed

lemma main_setup_Inl:
  assumes "main_setup e s0 = Inl s"
  shows "\<not> setup_ok e"
    "is_running s = is_running s0" "fd_fifo s = fd_fifo s0"
    "init_has_been_run s = init_has_been_run s0"
    "filter is_cleanup_event (trace s) = filter is_cleanup_event (trace s0)"
    "filter is_stream_event (trace s) = filter is_stream_event (trace s0)"
proof -
  show "\<not> setup_ok e"
    using assms main_setup_Inr_iff [of e s0] by auto
  let ?s1 = "snd (firmware_missing e s0)"
  let ?s2 = "snd (init_dev_handler e ?s1)"
  let ?s3 = "snd (get_interface e ?s2)"
  from assms consider
      "s = emit (Stderr ''Firmware files missing.'') ?s1"
    | "s = emit (Stderr ''Unable to find device.'') ?s2"
    | "s = emit (Stderr ''Could not claim interface.'') ?s3"
    unfolding main_setup_cases by (metis sum.inject(1) sum.distinct(1))
  then have "is_running s = is_running s0 \<and> fd_fifo s = fd_fifo s0
      \<and> init_has_been_run s = init_has_been_run s0
      \<and> filter is_cleanup_event (trace s) = filter is_cleanup_event (trace s0)
      \<and> filter is_stream_event (trace s) = filter is_stream_event (trace s0)"
    by cases (simp_all add: firmware_missing_trace)
  then show "is_running s = is_running s0" "fd_fifo s = fd_fifo s0"
    "init_has_been_run s = init_has_been_run s0"
    "filter is_cleanup_event (trace s) = filter is_cleanup_event (trace s0)"
    "filter is_stream_event (trace s) = filter is_stream_event (trace s0)"
    by simp_all
qed

subsection \<open>The sink, the configuration and the capture loop\<close>

lemma open_sink_fields [simp]:
  "is_running (open_sink e s) = is_running s"
  "libusb_ret (open_sink e s) = libusb_ret s"
  "fd_fifo (open_sink e s) = fifo_fd e"
  "init_has_been_run (open_sink e s) = init_has_been_run s"
  "devh (open_sink e s) = devh s"
  by (simp_all add: open_sink_def Let_def)

lemma open_sink_filters [simp]:
  "filter is_cleanup_event (trace (open_sink e s)) = filter is_cleanup_event (trace s)"
  "filter is_stream_event (trace (open_sink e s)) = filter is_stream_event (trace s)"
  by (simp_all add: open_sink_def fifo_path_def Let_def)

lemma configure_dev_fields [simp]:
  "is_running (configure_dev e k s) = is_running s"
  "libusb_ret (configure_dev e k s) = libusb_ret s"
  "fd_fifo (configure_dev e k s) = fd_fifo s"
  "devh (configure_dev e k s) = devh s"
  "init_has_been_run (configure_dev e k s) = (if configure_ok e then 1 else init_has_been_run s)"
  "trace (configure_dev e k s) = trace s @ [Configure_dev k]"
  by (simp_all add: configure_dev_def Let_def)

text \<open>The resolutions for which the \<open>switch\<close> has a case, each with its script.\<close>

lemma configure_switch_in_range:
  assumes "map_of resolution_script resolution = Some k"
  shows "configure_switch e resolution s = configure_dev e k s"
proof -
  have "(resolution, k) \<in> set resolution_script"
    using assms by (rule map_of_SomeD)
  then consider "resolution = 0" "k = Dev_720p" | "resolution = 1" "k = Dev_1080p"
    | "resolution = 2" "k = Dev_576i" | "resolution = 3" "k = Dev_component_576p"
    | "resolution = 4" "k = Dev_component_720p" | "resolution = 5" "k = Dev_component_1080i"
    | "resolution = 6" "k = Dev_component_1080p"
    unfolding resolution_script_def v720p_def v1080p_def v576i_def
      vc576p_def vc720p_def vc1080i_def vc1080p_def
    by auto
  then show ?thesis
    by cases
      (simp_all only: configure_switch_def v720p_def v1080p_def v576i_def
        vc576p_def vc720p_def vc1080i_def vc1080p_def, simp_all)
qed

lemma configure_stage_in_range:
  assumes "map_of resolution_script resolution = Some k"
  shows "is_running (configure_stage e resolution s) = is_running s"
    "libusb_ret (configure_stage e resolution s) = libusb_ret s"
    "fd_fifo (configure_stage e resolution s) = fd_fifo s"
    "devh (configure_stage e resolution s) = devh s"
    "init_has_been_run (configure_stage e resolution s) =
       (if is_running s \<noteq> 0 \<and> configure_ok e then 1 else init_has_been_run s)"
    "filter is_cleanup_event (trace (configure_stage e resolution s)) =
       filter is_cleanup_event (trace s)"
    "filter is_stream_event (trace (configure_stage e resolution s)) =
       filter is_stream_event (trace s) @ (if is_running s \<noteq> 0 then [Configure_dev k] else [])"
  by (simp_all add: configure_stage_def Let_def configure_switch_in_range [OF assms])

lemma receive_data_fields [simp]:
  "is_running (receive_data s) = is_running s"
  "libusb_ret (receive_data s) = libusb_ret s"
  "fd_fifo (receive_data s) = fd_fifo s"
  "devh (receive_data s) = devh s"
  "init_has_been_run (receive_data s) = init_has_been_run s"
  "trace (receive_data s) = trace s @ [Receive_data]"
  by (simp_all add: receive_data_def)

lemma capture_loop_stopped: "is_running s = 0 \<Longrightarrow> capture_loop sched s = Some s"
  by (cases sched) simp_all

lemma capture_loop_None_iff:
  "capture_loop sched s = None \<longleftrightarrow> is_running s \<noteq> 0 \<and> \<not> list_ex stop_signal (concat sched)"
proof (induction sched arbitrary: s)
  case Nil
  show ?case by simp
next
  case (Cons sigs sched)
  show ?case
    by (simp add: Cons.IH deliver_all_is_running)
qed

lemma capture_loop_Some:
  assumes "capture_loop sched s = Some s'"
  shows "is_running s' = 0 \<and> libusb_ret s' = libusb_ret s \<and> fd_fifo s' = fd_fifo s
         \<and> devh s' = devh s \<and> init_has_been_run s' = init_has_been_run s
         \<and> filter is_cleanup_event (trace s') = filter is_cleanup_event (trace s)
         \<and> (\<exists>n. filter is_stream_event (trace s') =
                  filter is_stream_event (trace s) @ replicate n Receive_data)"
  using assms
proof (induction sched arbitrary: s)
  case Nil
  then show ?case by (simp split: if_splits)
next
  case (Cons sigs sched)
  show ?case
  proof (cases "is_running s = 0")
    case True
    with Cons.prems show ?thesis by simp
  next
    case False
    with Cons.prems
    have "capture_loop sched (deliver_all sigs (receive_data s)) = Some s'" by simp
    from Cons.IH [OF this] obtain n where
      f: "is_running s' = 0" "libusb_ret s' = libusb_ret s" "fd_fifo s' = fd_fifo s"
        "devh s' = devh s" "init_has_been_run s' = init_has_been_run s"
        "filter is_cleanup_event (trace s') = filter is_cleanup_event (trace s)"
      and n: "filter is_stream_event (trace s') =
                (filter is_stream_event (trace s) @ [Receive_data]) @ replicate n Receive_data"
      by auto
    from n have "filter is_stream_event (trace s') =
        filter is_stream_event (trace s) @ replicate (Suc n) Receive_data"
      by simp
    with f show ?thesis by blast
  qed
qed

subsection \<open>Cleanup\<close>

lemma clean_up_fields [simp]:
  "is_running (clean_up s) = is_running s"
  "libusb_ret (clean_up s) = libusb_ret s"
  "fd_fifo (clean_up s) = fd_fifo s"
  "init_has_been_run (clean_up s) = init_has_been_run s"
  "devh (clean_up s) = devh s"
  by (simp_all add: clean_up_def remove_elgato_def Let_def)

lemma clean_up_trace:
  "trace (clean_up s) =
     trace s
     @ (if devh s \<noteq> None
        then (if init_has_been_run s \<noteq> 0
              then [Remove_elgato, Stderr ''Device has been reset.''] else [])
             @ [Release_interface INTERFACE_NUM, Libusb_close]
        else [])
     @ (if libusb_ret s = 0 then [Libusb_exit] else [])
     @ [Close_fd (fd_fifo s), Unlink fifo_path, Stderr ''Terminating.'']"
  by (simp add: clean_up_def remove_elgato_def Let_def)

subsection \<open>Option parsing\<close>

lemma parse_opts_range:
  assumes "parse_opts args r = Inr res" "map_of resolution_script r \<noteq> None"
  shows "map_of resolution_script res \<noteq> None"
  using assms
proof (induction args arbitrary: r)
  case Nil
  then show ?case by simp
next
  case (Cons a args)
  obtain opt optarg where a: "a = (opt, optarg)" by (cases a)
  from Cons.prems(1) obtain r' where
    "parse_opts args r' = Inr res" "map_of resolution_script r' \<noteq> None"
    unfolding a
    by (auto simp: resolution_script_def v720p_def v1080p_def v576i_def
        vc576p_def vc720p_def vc1080i_def vc1080p_def split: if_splits)
  then show ?case by (rule Cons.IH)
qed

lemma parse_opts_script:
  assumes "parse_opts args 0 = Inr res"
  obtains k where "map_of resolution_script res = Some k"
proof -
  have "map_of resolution_script 0 \<noteq> None"
    by (simp add: resolution_script_def v720p_def)
  from parse_opts_range [OF assms this] show ?thesis
    using that by blast
qed

subsection \<open>The whole run\<close>

lemma install_handlers_fields [simp]:
  "is_running (install_handlers s) = is_running s"
  "libusb_ret (install_handlers s) = libusb_ret s"
  "fd_fifo (install_handlers s) = fd_fifo s"
  "init_has_been_run (install_handlers s) = init_has_been_run s"
  "devh (install_handlers s) = devh s"
  "trace (install_handlers s) =
     trace s @ [Signal_set SIGINT Handler, Signal_set SIGTERM Handler, Signal_set SIGPIPE SIG_IGN]"
  by (simp_all add: install_handlers_def Let_def)

lemma init_state_fields [simp]:
  "is_running init_state = 1" "libusb_ret init_state = 1" "fd_fifo init_state = 0"
  "init_has_been_run init_state = 0" "devh init_state = None" "trace init_state = []"
  by (simp_all add: init_state_def)

lemma main_parsed:
  assumes "parse_opts args 0 = Inr res"
  shows "main e args =
           map_option (\<lambda>s. (0, clean_up s)) (main_body e res (install_handlers init_state))"
  by (simp add: main_def assms Let_def split: option.splits)

lemma main_usage:
  assumes "parse_opts args 0 = Inl err"
  shows "main e args =
           Some (EXIT_FAILURE, emit (Stderr (usage_message err)) (install_handlers init_state))"
  by (simp add: main_def assms Let_def)

lemma main_body_Inl: "main_setup e s0 = Inl s \<Longrightarrow> main_body e res s0 = Some s"
  by (simp add: main_body_def)

lemma main_body_Inr:
  "main_setup e s0 = Inr s1 \<Longrightarrow>
     main_body e res s0 =
       capture_loop (sigs_stream e)
         (deliver_all (sigs_config e)
            (configure_stage e res (deliver_all (sigs_setup e) (open_sink e s1))))"
  by (simp add: main_body_def Let_def)

lemma main_body_None_iff:
  assumes "map_of resolution_script res = Some k" "is_running s0 \<noteq> 0"
  shows "main_body e res s0 = None \<longleftrightarrow> setup_ok e \<and> \<not> stop_requested e"
proof (cases "main_setup e s0")
  case (Inl s)
  then show ?thesis
    using main_setup_Inl(1) [OF Inl] by (simp add: main_body_Inl)
next
  case (Inr s1)
  note f = main_setup_Inr [OF Inr]
  show ?thesis
    using f(1) assms(2)
    by (simp add: main_body_Inr [OF Inr] capture_loop_None_iff deliver_all_is_running
        configure_stage_in_range [OF assms(1)] f(4) stop_requested_def)
qed

lemma main_body_cleanup:
  assumes "map_of resolution_script res = Some k" "main_body e res s0 = Some s"
  shows "filter is_cleanup_event (trace s) = filter is_cleanup_event (trace s0)"
proof (cases "main_setup e s0")
  case (Inl s')
  then show ?thesis
    using main_setup_Inl(5) [OF Inl] assms(2) by (simp add: main_body_Inl)
next
  case (Inr s1)
  from assms(2) capture_loop_Some
  have "filter is_cleanup_event (trace s) =
      filter is_cleanup_event (trace (deliver_all (sigs_config e)
            (configure_stage e res (deliver_all (sigs_setup e) (open_sink e s1)))))"
    unfolding main_body_Inr [OF Inr] by blast
  then show ?thesis
    by (simp add: configure_stage_in_range [OF assms(1)] main_setup_Inr(7) [OF Inr])
qed

lemma main_body_flags:
  assumes "map_of resolution_script res = Some k" "main_body e res s0 = Some s"
  shows "libusb_ret s = (if firmware_ok e then usb_init_ret e else libusb_ret s0)"
    and "devh s = (if firmware_ok e then (if usb_init_ret e = 0 then opened e else None)
                   else devh s0)"
proof -
  have "libusb_ret s = (if firmware_ok e then usb_init_ret e else libusb_ret s0)
      \<and> devh s = (if firmware_ok e then (if usb_init_ret e = 0 then opened e else None)
                   else devh s0)"
  proof (cases "main_setup e s0")
    case (Inl s')
    with assms(2) have "main_setup e s0 = Inl s \<or> main_setup e s0 = Inr s"
      by (simp add: main_body_Inl)
    from main_setup_flags [OF this] show ?thesis by simp
  next
    case (Inr s1)
    then have "main_setup e s0 = Inl s1 \<or> main_setup e s0 = Inr s1" by simp
    note f = main_setup_flags [OF this]
    from assms(2) capture_loop_Some
    have "libusb_ret s = libusb_ret (deliver_all (sigs_config e)
              (configure_stage e res (deliver_all (sigs_setup e) (open_sink e s1))))
        \<and> devh s = devh (deliver_all (sigs_config e)
              (configure_stage e res (deliver_all (sigs_setup e) (open_sink e s1))))"
      unfolding main_body_Inr [OF Inr] by blast
    then show ?thesis
      by (simp add: configure_stage_in_range [OF assms(1)] f)
  qed
  then show "libusb_ret s = (if firmware_ok e then usb_init_ret e else libusb_ret s0)"
    and "devh s = (if firmware_ok e then (if usb_init_ret e = 0 then opened e else None)
                   else devh s0)"
    by simp_all
qed

text \<open>
  What the run leaves of the configuration and of the capture loop: whether the
  configuration stage found \<open>is_running\<close> set decides everything.
\<close>

lemma main_body_stream:
  assumes k: "map_of resolution_script res = Some k"
    and ok: "setup_ok e" and run: "is_running s0 \<noteq> 0"
    and res: "main_body e res s0 = Some s"
  shows "init_has_been_run s =
           (if \<not> list_ex stop_signal (sigs_setup e) \<and> configure_ok e then 1
            else init_has_been_run s0)"
    and "\<exists>n. filter is_stream_event (trace s) =
           filter is_stream_event (trace s0)
           @ (if list_ex stop_signal (sigs_setup e) then []
              else Configure_dev k # replicate n Receive_data)"
proof -
  from ok obtain s1 where Inr: "main_setup e s0 = Inr s1"
    using main_setup_Inr_iff by blast
  note f = main_setup_Inr [OF Inr]
  let ?s3 = "deliver_all (sigs_setup e) (open_sink e s1)"
  let ?s5 = "deliver_all (sigs_config e) (configure_stage e res ?s3)"
  have loop: "capture_loop (sigs_stream e) ?s5 = Some s"
    using res by (simp add: main_body_Inr [OF Inr])
  have r3: "is_running ?s3 = (if list_ex stop_signal (sigs_setup e) then 0 else is_running s0)"
    by (simp add: deliver_all_is_running f(4))
  have i5: "init_has_been_run ?s5 =
      (if \<not> list_ex stop_signal (sigs_setup e) \<and> configure_ok e then 1
       else init_has_been_run s0)"
    using run by (simp add: configure_stage_in_range [OF k] r3 f(6))
  have t5: "filter is_stream_event (trace ?s5) =
      filter is_stream_event (trace s0)
      @ (if list_ex stop_signal (sigs_setup e) then [] else [Configure_dev k])"
    using run by (simp add: configure_stage_in_range [OF k] r3 f(8))
  from capture_loop_Some [OF loop] have "init_has_been_run s = init_has_been_run ?s5"
    by blast
  with i5 show "init_has_been_run s =
           (if \<not> list_ex stop_signal (sigs_setup e) \<and> configure_ok e then 1
            else init_has_been_run s0)"
    by (simp only:)
  show "\<exists>n. filter is_stream_event (trace s) =
           filter is_stream_event (trace s0)
           @ (if list_ex stop_signal (sigs_setup e) then []
              else Configure_dev k # replicate n Receive_data)"
  proof (cases "list_ex stop_signal (sigs_setup e)")
    case True
    then have "is_running ?s5 = 0"
      by (simp add: deliver_all_is_running configure_stage_in_range [OF k] r3)
    from capture_loop_stopped [OF this] loop have "s = ?s5" by simp
    with t5 True show ?thesis by simp
  next
    case False
    from capture_loop_Some [OF loop] obtain n where
      "filter is_stream_event (trace s) =
         filter is_stream_event (trace ?s5) @ replicate n Receive_data"
      by blast
    with t5 False show ?thesis by simp
  qed
qed

lemma main_body_failed:
  assumes "\<not> setup_ok e" "main_body e res s0 = Some s"
  shows "init_has_been_run s = init_has_been_run s0"
    and "filter is_stream_event (trace s) = filter is_stream_event (trace s0)"
proof -
  from assms(1) obtain s' where Inl: "main_setup e s0 = Inl s'"
    using main_setup_Inr_iff [of e s0] by (cases "main_setup e s0") auto
  with assms(2) have "s' = s" by (simp add: main_body_Inl)
  with main_setup_Inl [OF Inl]
  show "init_has_been_run s = init_has_been_run s0"
    and "filter is_stream_event (trace s) = filter is_stream_event (trace s0)"
    by simp_all
qed

subsection \<open>Shared facts about whole runs\<close>

lemma count_list_filter:
  "P x \<Longrightarrow> count_list (filter P xs) x = count_list xs x"
  by (induction xs) auto

lemma not_in_trace:
  assumes "filter P xs = []" "P x"
  shows "x \<notin> set xs"
  using assms by (auto simp: filter_empty_conv)

lemma start_cleanup [simp]:
  "filter is_cleanup_event (trace (install_handlers init_state)) = []"
  "filter is_stream_event (trace (install_handlers init_state)) = []"
  by simp_all

text \<open>A run past option parsing ends when the setup fails or a termination request arrives.\<close>

lemma main_ends:
  assumes "parse_opts args 0 = Inr res" "\<not> setup_ok e \<or> stop_requested e"
  obtains sb k where "map_of resolution_script res = Some k"
    "main_body e res (install_handlers init_state) = Some sb"
    "main e args = Some (0, clean_up sb)"
proof -
  from assms(1) obtain k where k: "map_of resolution_script res = Some k"
    by (rule parse_opts_script)
  have "main_body e res (install_handlers init_state) \<noteq> None"
    using assms(2) main_body_None_iff [OF k, of "install_handlers init_state" e] by auto
  then obtain sb where sb: "main_body e res (install_handlers init_state) = Some sb"
    by blast
  then have "main e args = Some (0, clean_up sb)"
    by (simp add: main_parsed [OF assms(1)])
  with k sb show ?thesis using that by blast
qed

text \<open>A run that returns 0 went through the label \<open>end\<close>.\<close>

lemma main_returns_0:
  assumes "main e args = Some (0, s)"
  obtains res k sb where "parse_opts args 0 = Inr res" "map_of resolution_script res = Some k"
    "main_body e res (install_handlers init_state) = Some sb" "s = clean_up sb"
proof (cases "parse_opts args 0")
  case (Inl err)
  with assms show ?thesis by (simp add: main_usage EXIT_FAILURE_def)
next
  case (Inr res)
  from Inr obtain k where k: "map_of resolution_script res = Some k"
    by (rule parse_opts_script)
  from assms obtain sb where "main_body e res (install_handlers init_state) = Some sb"
    "s = clean_up sb"
    by (auto simp: main_parsed [OF Inr])
  with Inr k show ?thesis using that by blast
qed

lemma opened_None_iff: "opened e = None \<longleftrightarrow> first_match e = None"
  by (auto simp: opened_def first_match_def find_None_iff split: option.splits
      dest: find_Some_iff [THEN iffD1])

lemma device_found_opened: "device_found e \<Longrightarrow> opened e \<noteq> None"
  by (auto simp: opened_None_iff first_match_def find_None_iff device_found_def candidates_def)

lemmas env_defs = env_streaming_def env_claim_fails_def env_no_firmware_def env_unsupported_def
  env_absent_def env_early_stop_def

lemmas model_defs = main_def main_body_def main_setup_def install_handlers_def init_state_def
  firmware_missing_def init_dev_handler_def libusb_open_device_with_vid_pid_def get_interface_def
  open_sink_def configure_stage_def configure_switch_def configure_dev_def receive_data_def
  remove_elgato_def clean_up_def deliver_def sig_handler_def emit_def run_trace_def

lemmas const_defs = ELGATO_VENDOR_def GAME_CAPTURE_HD_PID_0_def GAME_CAPTURE_HD_PID_1_def
  GAME_CAPTURE_HD_PID_2_def GAME_CAPTURE_HD_PID_3_def INTERFACE_NUM_def CONFIGURATION_def
  EXIT_FAILURE_def fifo_path_def v720p_def v1080p_def v576i_def vc576p_def vc720p_def
  vc1080i_def vc1080p_def

lemmas pred_defs = setup_ok_def firmware_ok_def device_found_def stop_requested_def
  stop_signal_def clean_up_runs_def

section \<open>The claims\<close>

text \<open>
  C2. On every path past option parsing that ends (the firmware test fails, the device is
  not found, the interface cannot be claimed, or a termination request stops the
  configured or unconfigured stream), \<open>main\<close> returns the state that one call of
  \<open>clean_up\<close> leaves: the state \<open>sb\<close> in which the label \<open>end\<close> is reached holds no call
  and no line of \<open>clean_up\<close> yet, so \<open>clean_up\<close> has not run before, and the final state
  is \<open>clean_up sb\<close>, so it runs then; the trace holds its final line exactly once.
  \<open>clean_up\<close> is executed exactly once, never zero times and never twice. The second
  call of \<open>clean_up\<close> in the \<open>default\<close> branch of the \<open>switch\<close> is never reached,
  because option parsing only yields the seven values of the enumeration.
\<close>

theorem clean_up_exactly_once:
  assumes "parse_opts args 0 = Inr res" and "\<not> setup_ok e \<or> stop_requested e"
  shows "\<exists>sb. main e args = Some (0, clean_up sb)
           \<and> filter is_cleanup_event (trace sb) = []
           \<and> filter is_cleanup_event (trace (clean_up sb)) =
               (if devh sb \<noteq> None
                then (if init_has_been_run sb \<noteq> 0
                      then [Remove_elgato, Stderr ''Device has been reset.''] else [])
                     @ [Release_interface INTERFACE_NUM, Libusb_close]
                else [])
               @ (if libusb_ret sb = 0 then [Libusb_exit] else [])
               @ [Close_fd (fd_fifo sb), Unlink fifo_path, Stderr ''Terminating.'']
           \<and> clean_up_runs (trace (clean_up sb)) = 1"
proof -
  from assms obtain sb k where k: "map_of resolution_script res = Some k"
    and sb: "main_body e res (install_handlers init_state) = Some sb"
    and m: "main e args = Some (0, clean_up sb)"
    by (rule main_ends)
  have c: "filter is_cleanup_event (trace sb) = []"
    using main_body_cleanup [OF k sb] by simp
  then have "count_list (filter is_cleanup_event (trace sb)) (Stderr ''Terminating.'') = 0"
    by simp
  then have "count_list (trace sb) (Stderr ''Terminating.'') = 0"
    by (simp add: count_list_filter)
  then have r: "clean_up_runs (trace (clean_up sb)) = 1"
    by (simp add: clean_up_runs_def clean_up_trace)
  have "filter is_cleanup_event (trace (clean_up sb)) =
      (if devh sb \<noteq> None
       then (if init_has_been_run sb \<noteq> 0
             then [Remove_elgato, Stderr ''Device has been reset.''] else [])
            @ [Release_interface INTERFACE_NUM, Libusb_close]
       else [])
      @ (if libusb_ret sb = 0 then [Libusb_exit] else [])
      @ [Close_fd (fd_fifo sb), Unlink fifo_path, Stderr ''Terminating.'']"
    using c by (simp add: clean_up_trace)
  with m c r show ?thesis by blast
qed

theorem clean_up_exactly_once_witness:
  "parse_opts [(CHR ''r'', ''c1080i'')] 0 = Inr vc1080i \<and> stop_requested env_streaming
   \<and> (\<exists>sb. main env_streaming [(CHR ''r'', ''c1080i'')] = Some (0, clean_up sb)
          \<and> filter is_cleanup_event (trace sb) = []
          \<and> clean_up_runs (trace (clean_up sb)) = 1)"
proof -
  have p: "parse_opts [(CHR ''r'', ''c1080i'')] 0 = Inr vc1080i" by simp
  have r: "stop_requested env_streaming" by (simp add: pred_defs env_defs)
  then have "\<not> setup_ok env_streaming \<or> stop_requested env_streaming" by simp
  from clean_up_exactly_once [OF p this] p r show ?thesis by blast
qed

text \<open>
  C5. Whenever the run gets past option parsing and ends, whatever happened on the way
  (firmware missing, device not found, claim failed, or a stream stopped by a signal),
  \<open>main\<close> returns the same status 0, after \<open>clean_up\<close> has run.
\<close>

theorem exit_status_uniform:
  assumes "parse_opts args 0 = Inr res" and "\<not> setup_ok e \<or> stop_requested e"
  shows "\<exists>sb. main e args = Some (0, clean_up sb)"
proof -
  from assms obtain sb k where "main e args = Some (0, clean_up sb)"
    by (rule main_ends)
  then show ?thesis by blast
qed

theorem exit_status_uniform_witness:
  "parse_opts [] 0 = Inr 0 \<and> claim_interface_ret env_claim_fails = - 6
   \<and> (\<exists>sb. main env_claim_fails [] = Some (0, clean_up sb))"
proof -
  have p: "parse_opts [] 0 = Inr 0" by simp
  have c: "claim_interface_ret env_claim_fails = - 6" by (simp add: env_defs)
  then have "\<not> setup_ok env_claim_fails \<or> stop_requested env_claim_fails"
    by (simp add: setup_ok_def)
  from exit_status_uniform [OF p this] p c show ?thesis by blast
qed

text \<open>
  C8. If one of the two firmware files is absent, the run prints the diagnostic and goes
  straight to \<open>clean_up\<close>: \<open>init_dev_handler\<close> is never called, and the whole trace holds
  no call into the USB stack or to the device. The trace is the three \<open>signal\<close> calls,
  the \<open>access\<close> tests, the diagnostic, and the three unguarded steps of \<open>clean_up\<close>.
\<close>

theorem firmware_missing_no_device_access:
  assumes "parse_opts args 0 = Inr res"
    and "\<not> fw_present e FW_MB86H57_H58_IDLE \<or> \<not> fw_present e FW_MB86H57_H58_ENC"
  shows "\<exists>s. main e args = Some (0, s)
           \<and> trace s =
               [Signal_set SIGINT Handler, Signal_set SIGTERM Handler, Signal_set SIGPIPE SIG_IGN,
                Access FW_MB86H57_H58_IDLE]
               @ (if fw_present e FW_MB86H57_H58_IDLE then [Access FW_MB86H57_H58_ENC] else [])
               @ [Stderr ''Firmware files missing.'', Close_fd 0, Unlink fifo_path,
                  Stderr ''Terminating.'']
           \<and> \<not> list_ex usb_access (trace s)"
proof -
  let ?s0 = "install_handlers init_state"
  let ?sb = "emit (Stderr ''Firmware files missing.'') (snd (firmware_missing e ?s0))"
  from assms(2) have "\<not> firmware_ok e" by (auto simp: firmware_ok_def)
  then have "main_setup e ?s0 = Inl ?sb" by (simp add: main_setup_cases)
  then have "main_body e res ?s0 = Some ?sb" by (rule main_body_Inl)
  then have m: "main e args = Some (0, clean_up ?sb)"
    by (simp add: main_parsed [OF assms(1)])
  have t: "trace (clean_up ?sb) =
      [Signal_set SIGINT Handler, Signal_set SIGTERM Handler, Signal_set SIGPIPE SIG_IGN,
       Access FW_MB86H57_H58_IDLE]
      @ (if fw_present e FW_MB86H57_H58_IDLE then [Access FW_MB86H57_H58_ENC] else [])
      @ [Stderr ''Firmware files missing.'', Close_fd 0, Unlink fifo_path,
         Stderr ''Terminating.'']"
    by (simp add: clean_up_trace firmware_missing_trace)
  have "\<not> list_ex usb_access (trace (clean_up ?sb))"
    unfolding t by simp
  with m t show ?thesis by blast
qed

theorem firmware_missing_no_device_access_witness:
  "parse_opts [] 0 = Inr 0 \<and> fw_present env_no_firmware FW_MB86H57_H58_IDLE = False
   \<and> (\<exists>s. main env_no_firmware [] = Some (0, s)
          \<and> trace s =
              [Signal_set SIGINT Handler, Signal_set SIGTERM Handler, Signal_set SIGPIPE SIG_IGN,
               Access FW_MB86H57_H58_IDLE, Stderr ''Firmware files missing.'', Close_fd 0,
               Unlink fifo_path, Stderr ''Terminating.'']
          \<and> list_ex usb_access (trace s) = False)"
proof -
  have p: "parse_opts [] 0 = Inr 0" by simp
  have f: "fw_present env_no_firmware FW_MB86H57_H58_IDLE = False" by (simp add: env_defs)
  then have "\<not> fw_present env_no_firmware FW_MB86H57_H58_IDLE
      \<or> \<not> fw_present env_no_firmware FW_MB86H57_H58_ENC"
    by simp
  from firmware_missing_no_device_access [OF p this] p f show ?thesis by simp
qed

text \<open>
  C10. If the setup succeeds but a termination request has cleared \<open>is_running\<close> before
  the configuration stage tests it, the run ends with status 0, no configuration script
  and no \<open>receive_data\<close> has been called, \<open>init_has_been_run\<close> is still 0, and \<open>clean_up\<close>
  has not called \<open>remove_elgato\<close>.
\<close>

theorem early_stop_skips_configuration:
  assumes "parse_opts args 0 = Inr res" and "setup_ok e"
    and "list_ex stop_signal (sigs_setup e)"
  shows "\<exists>s. main e args = Some (0, s)
           \<and> filter is_stream_event (trace s) = []
           \<and> init_has_been_run s = 0
           \<and> Remove_elgato \<notin> set (trace s)"
proof -
  let ?s0 = "install_handlers init_state"
  from assms(3) have "stop_requested e" by (simp add: stop_requested_def)
  then have "\<not> setup_ok e \<or> stop_requested e" by simp
  with assms(1) obtain sb k where k: "map_of resolution_script res = Some k"
    and sb: "main_body e res ?s0 = Some sb"
    and m: "main e args = Some (0, clean_up sb)"
    by (rule main_ends)
  have run: "is_running ?s0 \<noteq> 0" by simp
  note st = main_body_stream [OF k assms(2) run sb]
  from st(1) assms(3) have i: "init_has_been_run sb = 0" by simp
  from st(2) assms(3) have f: "filter is_stream_event (trace sb) = []" by simp
  have "filter is_cleanup_event (trace sb) = []"
    using main_body_cleanup [OF k sb] by simp
  then have r: "Remove_elgato \<notin> set (trace sb)"
    by (rule not_in_trace) simp
  have "filter is_stream_event (trace (clean_up sb)) = []"
    using f by (simp add: clean_up_trace)
  moreover have "Remove_elgato \<notin> set (trace (clean_up sb))"
    using r i by (simp add: clean_up_trace)
  ultimately show ?thesis using m i by simp
qed

theorem early_stop_skips_configuration_witness:
  "parse_opts [(CHR ''r'', ''1080p'')] 0 = Inr v1080p \<and> setup_ok env_early_stop
   \<and> list_ex stop_signal (sigs_setup env_early_stop)
   \<and> (\<exists>s. main env_early_stop [(CHR ''r'', ''1080p'')] = Some (0, s)
          \<and> filter is_stream_event (trace s) = []
          \<and> init_has_been_run s = 0
          \<and> Remove_elgato \<notin> set (trace s))"
proof -
  have p: "parse_opts [(CHR ''r'', ''1080p'')] 0 = Inr v1080p" by simp
  have ok: "setup_ok env_early_stop" by (simp add: pred_defs env_defs const_defs)
  have st: "list_ex stop_signal (sigs_setup env_early_stop)" by (simp add: env_defs)
  from early_stop_skips_configuration [OF p ok st] p ok st show ?thesis by blast
qed

lemma token_resolution:
  assumes "map_of token_script t = Some k"
  obtains res where "parse_opts [(CHR ''r'', t)] 0 = Inr res"
    "map_of resolution_script res = Some k"
proof -
  have "(t, k) \<in> set token_script"
    using assms by (rule map_of_SomeD)
  then have "t = ''720p'' \<and> k = Dev_720p \<or> t = ''1080p'' \<and> k = Dev_1080p
      \<or> t = ''576i'' \<and> k = Dev_576i \<or> t = ''c576p'' \<and> k = Dev_component_576p
      \<or> t = ''c720p'' \<and> k = Dev_component_720p \<or> t = ''c1080i'' \<and> k = Dev_component_1080i
      \<or> t = ''c1080p'' \<and> k = Dev_component_1080p"
    by (simp add: token_script_def)
  then have "\<exists>res. parse_opts [(CHR ''r'', t)] 0 = Inr res
      \<and> map_of resolution_script res = Some k"
    by (elim disjE conjE) (simp_all add: resolution_script_def const_defs)
  then show ?thesis using that by blast
qed

text \<open>
  C7. For each of the seven tokens: when the setup succeeds and \<open>is_running\<close> is still set
  at the configuration stage, the run calls exactly one configuration script, the one of
  the token (for \<open>c1080i\<close> the component-1080i script), and calls it before every call of
  \<open>receive_data\<close>; and \<open>init_has_been_run\<close> is set in the end exactly when that script
  succeeded. The effect of the script on \<open>init_has_been_run\<close> is the modelled one of
  \<open>configure_dev\<close>.
\<close>

theorem configurator_invoked_once:
  assumes "map_of token_script t = Some k" and "setup_ok e"
    and "\<not> list_ex stop_signal (sigs_setup e)" and "stop_requested e"
  shows "\<exists>s n. main e [(CHR ''r'', t)] = Some (0, s)
           \<and> filter is_stream_event (trace s) = Configure_dev k # replicate n Receive_data
           \<and> (init_has_been_run s \<noteq> 0 \<longleftrightarrow> configure_ok e)"
proof -
  let ?s0 = "install_handlers init_state"
  from assms(1) obtain res where p: "parse_opts [(CHR ''r'', t)] 0 = Inr res"
    and k: "map_of resolution_script res = Some k"
    by (rule token_resolution)
  have "main_body e res ?s0 \<noteq> None"
    using assms(4) main_body_None_iff [OF k, of ?s0 e] by simp
  then obtain sb where sb: "main_body e res ?s0 = Some sb" by blast
  then have m: "main e [(CHR ''r'', t)] = Some (0, clean_up sb)"
    by (simp add: main_parsed [OF p])
  have run: "is_running ?s0 \<noteq> 0" by simp
  note st = main_body_stream [OF k assms(2) run sb]
  from st(1) assms(3) have i: "init_has_been_run sb \<noteq> 0 \<longleftrightarrow> configure_ok e" by simp
  from st(2) assms(3) obtain n where
    "filter is_stream_event (trace sb) = Configure_dev k # replicate n Receive_data"
    by auto
  then have "filter is_stream_event (trace (clean_up sb)) =
      Configure_dev k # replicate n Receive_data"
    by (simp add: clean_up_trace)
  with m i show ?thesis by simp
qed

theorem configurator_invoked_once_witness:
  "map_of token_script ''c1080i'' = Some Dev_component_1080i \<and> setup_ok env_streaming
   \<and> list_ex stop_signal (sigs_setup env_streaming) = False \<and> stop_requested env_streaming
   \<and> (\<exists>s n. main env_streaming [(CHR ''r'', ''c1080i'')] = Some (0, s)
          \<and> filter is_stream_event (trace s) =
              Configure_dev Dev_component_1080i # replicate n Receive_data
          \<and> init_has_been_run s \<noteq> 0)"
proof -
  have k: "map_of token_script ''c1080i'' = Some Dev_component_1080i"
    by (simp add: token_script_def)
  have ok: "setup_ok env_streaming" by (simp add: pred_defs env_defs const_defs)
  have ns: "\<not> list_ex stop_signal (sigs_setup env_streaming)" by (simp add: env_defs)
  have st: "stop_requested env_streaming" by (simp add: pred_defs env_defs)
  have c: "configure_ok env_streaming" by (simp add: env_defs)
  from configurator_invoked_once [OF k ok ns st] k ok ns st c show ?thesis by simp
qed

text \<open>
  C3. Whenever a run ends with \<open>init_has_been_run\<close> set (only a configuration script sets
  it, so the device was found, its interface claimed and the device configured, as after
  full streaming), the trace ends with the steps of \<open>clean_up\<close> in this order:
  \<open>remove_elgato\<close> and its report, release of the interface, \<open>libusb_close\<close>,
  \<open>libusb_exit\<close>, \<open>close\<close> and \<open>unlink\<close> of the FIFO, and the final line. None of these
  calls occurs earlier in the run, so no step runs after a step that releases what it
  needs.
\<close>

theorem clean_up_order_after_streaming:
  assumes "main e args = Some (rc, s)" and "init_has_been_run s \<noteq> 0"
  shows "\<exists>pre. trace s =
             pre @ [Remove_elgato, Stderr ''Device has been reset.'',
                    Release_interface INTERFACE_NUM, Libusb_close, Libusb_exit,
                    Close_fd (fd_fifo s), Unlink fifo_path, Stderr ''Terminating.'']
           \<and> filter is_cleanup_event pre = []"
proof -
  let ?s0 = "install_handlers init_state"
  obtain res where p: "parse_opts args 0 = Inr res"
  proof (cases "parse_opts args 0")
    case (Inl err)
    with assms show ?thesis by (auto simp: main_usage)
  next
    case (Inr res)
    then show ?thesis using that by blast
  qed
  from p obtain k where k: "map_of resolution_script res = Some k"
    by (rule parse_opts_script)
  from assms(1) obtain sb where sb: "main_body e res ?s0 = Some sb" and s: "s = clean_up sb"
    by (auto simp: main_parsed [OF p])
  have i: "init_has_been_run sb \<noteq> 0" using assms(2) s by simp
  have ok: "setup_ok e"
  proof (rule ccontr)
    assume "\<not> setup_ok e"
    from main_body_failed(1) [OF this sb] i show False by simp
  qed
  then have "firmware_ok e" "usb_init_ret e = 0" "opened e \<noteq> None"
    by (simp_all add: setup_ok_def device_found_opened)
  with main_body_flags [OF k sb] have f: "libusb_ret sb = 0" "devh sb \<noteq> None"
    by simp_all
  have "trace s =
      trace sb @ [Remove_elgato, Stderr ''Device has been reset.'',
                  Release_interface INTERFACE_NUM, Libusb_close, Libusb_exit,
                  Close_fd (fd_fifo s), Unlink fifo_path, Stderr ''Terminating.'']"
    using i f by (simp add: s clean_up_trace)
  moreover have "filter is_cleanup_event (trace sb) = []"
    using main_body_cleanup [OF k sb] by simp
  ultimately show ?thesis by blast
qed

theorem clean_up_order_after_streaming_witness:
  "\<exists>s pre. main env_streaming [(CHR ''r'', ''c1080i'')] = Some (0, s)
     \<and> init_has_been_run s = 1
     \<and> trace s =
         pre @ [Remove_elgato, Stderr ''Device has been reset.'',
                Release_interface INTERFACE_NUM, Libusb_close, Libusb_exit,
                Close_fd 3, Unlink fifo_path, Stderr ''Terminating.'']
     \<and> filter is_cleanup_event pre = []"
proof -
  obtain s where m: "main env_streaming [(CHR ''r'', ''c1080i'')] = Some (0, s)"
    and i: "init_has_been_run s = 1" and fd: "fd_fifo s = 3"
    by (simp add: env_defs model_defs const_defs Let_def)
  from i have "init_has_been_run s \<noteq> 0" by simp
  from clean_up_order_after_streaming [OF m this] m i fd show ?thesis by auto
qed

lemma parse_opts_accepts:
  "(\<exists>res. parse_opts args r = Inr res) \<longleftrightarrow>
     (\<forall>a \<in> set args. fst a = CHR ''r'' \<and> snd a \<in> fst ` set supported_tokens)"
proof (induction args arbitrary: r)
  case Nil
  show ?case by simp
next
  case (Cons a args)
  obtain opt optarg where a: "a = (opt, optarg)" by (cases a)
  show ?case
    unfolding a by (simp add: Cons.IH supported_tokens_def)
qed

lemma parse_opts_token:
  assumes "map_of supported_tokens t = Some v"
  shows "parse_opts [(CHR ''r'', t)] 0 = Inr v"
proof -
  have "(t, v) \<in> set supported_tokens"
    using assms by (rule map_of_SomeD)
  then have "t = ''720p'' \<and> v = v720p \<or> t = ''1080p'' \<and> v = v1080p
      \<or> t = ''576i'' \<and> v = v576i \<or> t = ''c576p'' \<and> v = vc576p
      \<or> t = ''c720p'' \<and> v = vc720p \<or> t = ''c1080i'' \<and> v = vc1080i
      \<or> t = ''c1080p'' \<and> v = vc1080p"
    by (simp add: supported_tokens_def)
  then show ?thesis
    by (elim disjE conjE) simp_all
qed

text \<open>
  C6. The option \<open>r\<close> accepts exactly the seven tokens: \<open>main\<close> returns \<open>EXIT_FAILURE\<close>,
  which is not 0, if and only if some option \<open>getopt_long\<close> returns is not \<open>r\<close> with one
  of these tokens as argument, so any other argument, and any other return of
  \<open>getopt_long\<close> (\<open>?\<close> for an unrecognised option or a missing argument, \<open>:\<close>), is a
  usage error. The usage error ends \<open>main\<close> after nothing but the three \<open>signal\<close> calls
  and the diagnostic: no file is tested and no device is touched. Without options \<open>main\<close>
  runs the rest of its body with the resolution \<open>v720p\<close>, and with one option \<open>r\<close> and a
  token with the resolution of that token.
\<close>

theorem resolution_option:
  "((\<exists>res. parse_opts args 0 = Inr res) \<longleftrightarrow>
      (\<forall>a \<in> set args. fst a = CHR ''r'' \<and> snd a \<in> fst ` set supported_tokens))
   \<and> ((\<exists>s. main e args = Some (EXIT_FAILURE, s)) \<longleftrightarrow>
      \<not> (\<forall>a \<in> set args. fst a = CHR ''r'' \<and> snd a \<in> fst ` set supported_tokens))
   \<and> main e [] =
       map_option (\<lambda>s. (0, clean_up s)) (main_body e v720p (install_handlers init_state))
   \<and> (map_of supported_tokens t = Some v \<longrightarrow>
        main e [(CHR ''r'', t)] =
          map_option (\<lambda>s. (0, clean_up s)) (main_body e v (install_handlers init_state)))
   \<and> parse_opts [] 0 = Inr v720p
   \<and> (map_of supported_tokens t = Some v \<longrightarrow> parse_opts [(CHR ''r'', t)] 0 = Inr v)
   \<and> (parse_opts args 0 = Inl err \<longrightarrow>
        (\<exists>s. main e args = Some (EXIT_FAILURE, s)
           \<and> trace s =
               [Signal_set SIGINT Handler, Signal_set SIGTERM Handler,
                Signal_set SIGPIPE SIG_IGN, Stderr (usage_message err)])
        \<and> EXIT_FAILURE \<noteq> 0)"
proof (intro conjI impI)
  show acc: "(\<exists>res. parse_opts args 0 = Inr res) \<longleftrightarrow>
      (\<forall>a \<in> set args. fst a = CHR ''r'' \<and> snd a \<in> fst ` set supported_tokens)"
    by (rule parse_opts_accepts)
  show "(\<exists>s. main e args = Some (EXIT_FAILURE, s)) \<longleftrightarrow>
      \<not> (\<forall>a \<in> set args. fst a = CHR ''r'' \<and> snd a \<in> fst ` set supported_tokens)"
  proof (cases "parse_opts args 0")
    case (Inl err)
    then have "\<not> (\<exists>res. parse_opts args 0 = Inr res)" by simp
    with acc main_usage [OF Inl, of e] show ?thesis by simp
  next
    case (Inr res)
    then have "\<exists>res. parse_opts args 0 = Inr res" by blast
    moreover have "\<not> (\<exists>s. main e args = Some (EXIT_FAILURE, s))"
      by (auto simp: main_parsed [OF Inr] EXIT_FAILURE_def)
    ultimately show ?thesis using acc by simp
  qed
  have p0: "parse_opts [] 0 = Inr v720p" by (simp add: v720p_def)
  then show "main e [] =
      map_option (\<lambda>s. (0, clean_up s)) (main_body e v720p (install_handlers init_state))"
    by (rule main_parsed)
  show "main e [(CHR ''r'', t)] =
      map_option (\<lambda>s. (0, clean_up s)) (main_body e v (install_handlers init_state))"
    if "map_of supported_tokens t = Some v"
    using parse_opts_token [OF that] by (rule main_parsed)
  show "parse_opts [] 0 = Inr v720p" by (rule p0)
  show "parse_opts [(CHR ''r'', t)] 0 = Inr v" if "map_of supported_tokens t = Some v"
    using that by (rule parse_opts_token)
  show "\<exists>s. main e args = Some (EXIT_FAILURE, s)
           \<and> trace s =
               [Signal_set SIGINT Handler, Signal_set SIGTERM Handler,
                Signal_set SIGPIPE SIG_IGN, Stderr (usage_message err)]"
    if "parse_opts args 0 = Inl err"
    using main_usage [OF that, of e] by simp
  show "EXIT_FAILURE \<noteq> 0" by (simp add: EXIT_FAILURE_def)
qed

theorem resolution_option_witness:
  "parse_opts [(CHR ''r'', ''720'')] 0 = Inl Unsupported_resolution
   \<and> map_of supported_tokens ''c576p'' = Some vc576p
   \<and> parse_opts [(CHR ''r'', ''c576p'')] 0 = Inr vc576p
   \<and> (\<exists>s. main env_streaming [(CHR ''r'', ''720'')] = Some (1, s)
          \<and> trace s =
              [Signal_set SIGINT Handler, Signal_set SIGTERM Handler,
               Signal_set SIGPIPE SIG_IGN, Stderr ''Unsupported resolution.''])
   \<and> (\<exists>s. main env_streaming [] = Some (0, s)
          \<and> filter is_stream_event (trace s) =
              [Configure_dev Dev_720p, Receive_data, Receive_data, Receive_data])
   \<and> (\<exists>s. main env_streaming [(CHR ''r'', ''c576p'')] = Some (0, s)
          \<and> filter is_stream_event (trace s) =
              [Configure_dev Dev_component_576p, Receive_data, Receive_data, Receive_data])"
proof -
  have p: "parse_opts [(CHR ''r'', ''720'')] 0 = Inl Unsupported_resolution" by simp
  have m: "map_of supported_tokens ''c576p'' = Some vc576p"
    by (simp add: supported_tokens_def)
  note th = resolution_option
    [of "[(CHR ''r'', ''720'')]" env_streaming "''c576p''" vc576p Unsupported_resolution]
  have b0: "\<exists>s. main_body env_streaming v720p (install_handlers init_state) = Some s
      \<and> filter is_stream_event (trace (clean_up s)) =
          [Configure_dev Dev_720p, Receive_data, Receive_data, Receive_data]"
    by (simp add: env_defs model_defs const_defs Let_def)
  have b3: "\<exists>s. main_body env_streaming vc576p (install_handlers init_state) = Some s
      \<and> filter is_stream_event (trace (clean_up s)) =
          [Configure_dev Dev_component_576p, Receive_data, Receive_data, Receive_data]"
    by (simp add: env_defs model_defs const_defs Let_def)
  from th have m0: "main env_streaming [] =
      map_option (\<lambda>s. (0, clean_up s))
        (main_body env_streaming v720p (install_handlers init_state))"
    by blast
  from th m have m3: "main env_streaming [(CHR ''r'', ''c576p'')] =
      map_option (\<lambda>s. (0, clean_up s))
        (main_body env_streaming vc576p (install_handlers init_state))"
    by blast
  have w0: "\<exists>s. main env_streaming [] = Some (0, s)
      \<and> filter is_stream_event (trace s) =
          [Configure_dev Dev_720p, Receive_data, Receive_data, Receive_data]"
    using b0 unfolding m0 by auto
  have w3: "\<exists>s. main env_streaming [(CHR ''r'', ''c576p'')] = Some (0, s)
      \<and> filter is_stream_event (trace s) =
          [Configure_dev Dev_component_576p, Receive_data, Receive_data, Receive_data]"
    using b3 unfolding m3 by auto
  from th p m have "parse_opts [(CHR ''r'', ''c576p'')] 0 = Inr vc576p
      \<and> (\<exists>s. main env_streaming [(CHR ''r'', ''720'')] = Some (1, s)
          \<and> trace s =
              [Signal_set SIGINT Handler, Signal_set SIGTERM Handler,
               Signal_set SIGPIPE SIG_IGN, Stderr ''Unsupported resolution.''])"
    by (simp add: EXIT_FAILURE_def)
  with p m w0 w3 show ?thesis by blast
qed





text \<open>
  C1, as stated, does not hold. The code keeps no marker for a claimed interface and none
  for an opened sink. When the claim of the interface fails, \<open>devh\<close> is not \<open>NULL\<close> and
  \<open>clean_up\<close> still calls \<open>libusb_release_interface\<close>; and although the FIFO was never
  created or opened, \<open>clean_up\<close> calls \<open>close\<close> on the initial \<open>fd_fifo\<close>, which is 0, and
  \<open>unlink\<close> on the path of the FIFO.
\<close>

theorem clean_up_unacquired_counterexample:
  "claim_interface_ret env_claim_fails = - 6
   \<and> run_trace env_claim_fails [] = Some
       [Signal_set SIGINT Handler, Signal_set SIGTERM Handler, Signal_set SIGPIPE SIG_IGN,
        Access FW_MB86H57_H58_IDLE, Access FW_MB86H57_H58_ENC, Libusb_init,
        Libusb_open ELGATO_VENDOR GAME_CAPTURE_HD_PID_0,
        Libusb_open ELGATO_VENDOR GAME_CAPTURE_HD_PID_1,
        Kernel_driver_active 0, Detach_kernel_driver 0, Set_configuration 1, Claim_interface 0,
        Stderr ''Failed to claim interface.'', Stderr ''Could not claim interface.'',
        Release_interface 0, Libusb_close, Libusb_exit, Close_fd 0,
        Unlink ''/tmp/elgato_gchd.ts'', Stderr ''Terminating.'']"
  by (simp add: env_defs model_defs const_defs Let_def)

text \<open>
  C1, amended. In every run that goes through \<open>clean_up\<close>: \<open>libusb_exit\<close> is called exactly
  when \<open>libusb_init\<close> was called and returned 0; the interface is released and the handle
  closed exactly when \<open>libusb_init\<close> succeeded and one of the four candidates opened, that
  is when \<open>devh\<close> is not \<open>NULL\<close>, whether or not the interface was claimed. This holds on
  every exit path, also before the device was found. Nothing is stated about the steps
  on the sink.
\<close>

theorem clean_up_guards:
  assumes "main e args = Some (0, s)"
  shows "(Libusb_exit \<in> set (trace s) \<longleftrightarrow> firmware_ok e \<and> usb_init_ret e = 0)
       \<and> (Release_interface INTERFACE_NUM \<in> set (trace s) \<longleftrightarrow>
            firmware_ok e \<and> usb_init_ret e = 0 \<and> opened e \<noteq> None)
       \<and> (Libusb_close \<in> set (trace s) \<longleftrightarrow>
            firmware_ok e \<and> usb_init_ret e = 0 \<and> opened e \<noteq> None)"
proof -
  let ?s0 = "install_handlers init_state"
  from assms obtain res k sb where k: "map_of resolution_script res = Some k"
    and sb: "main_body e res ?s0 = Some sb" and s: "s = clean_up sb"
    by (rule main_returns_0)
  have c: "filter is_cleanup_event (trace sb) = []"
    using main_body_cleanup [OF k sb] by simp
  have n: "Libusb_exit \<notin> set (trace sb)" "Release_interface INTERFACE_NUM \<notin> set (trace sb)"
    "Libusb_close \<notin> set (trace sb)"
    by (rule not_in_trace [OF c], simp)+
  have f: "libusb_ret sb = 0 \<longleftrightarrow> firmware_ok e \<and> usb_init_ret e = 0"
    "devh sb \<noteq> None \<longleftrightarrow> firmware_ok e \<and> usb_init_ret e = 0 \<and> opened e \<noteq> None"
    using main_body_flags [OF k sb] by simp_all
  have "Libusb_exit \<in> set (trace s) \<longleftrightarrow> libusb_ret sb = 0"
    using n by (simp add: s clean_up_trace)
  moreover have "Release_interface INTERFACE_NUM \<in> set (trace s) \<longleftrightarrow> devh sb \<noteq> None"
    using n by (simp add: s clean_up_trace)
  moreover have "Libusb_close \<in> set (trace s) \<longleftrightarrow> devh sb \<noteq> None"
    using n by (simp add: s clean_up_trace)
  ultimately show ?thesis using f by simp
qed

theorem clean_up_guards_witness:
  "\<exists>s. main env_claim_fails [] = Some (0, s)
     \<and> claim_interface_ret env_claim_fails = - 6
     \<and> Libusb_exit \<in> set (trace s)
     \<and> Release_interface INTERFACE_NUM \<in> set (trace s)
     \<and> Libusb_close \<in> set (trace s)"
proof -
  obtain s where m: "main env_claim_fails [] = Some (0, s)"
    by (simp add: env_defs model_defs const_defs Let_def)
  have c: "claim_interface_ret env_claim_fails = - 6" by (simp add: env_defs)
  have f: "first_match env_claim_fails = Some GAME_CAPTURE_HD_PID_1"
    by (simp add: first_match_def candidates_def env_defs)
  have o: "opened env_claim_fails = Some 7"
    unfolding opened_def f by (simp add: env_defs)
  have "firmware_ok env_claim_fails" "usb_init_ret env_claim_fails = 0"
    by (simp_all add: firmware_ok_def env_defs)
  with clean_up_guards [OF m] m c o show ?thesis by simp
qed

text \<open>
  C4, as stated, does not hold. When only the fourth, unsupported identity opens,
  \<open>init_dev_handler\<close> returns 1, the value it also returns when nothing opens, and the
  caller prints the line of a missing device in both runs.
\<close>

theorem unsupported_status_counterexample:
  "fst (init_dev_handler env_unsupported init_state) = 1
   \<and> fst (init_dev_handler env_absent init_state) = 1
   \<and> run_trace env_unsupported [] = Some
       [Signal_set SIGINT Handler, Signal_set SIGTERM Handler, Signal_set SIGPIPE SIG_IGN,
        Access FW_MB86H57_H58_IDLE, Access FW_MB86H57_H58_ENC, Libusb_init,
        Libusb_open ELGATO_VENDOR GAME_CAPTURE_HD_PID_0,
        Libusb_open ELGATO_VENDOR GAME_CAPTURE_HD_PID_1,
        Libusb_open ELGATO_VENDOR GAME_CAPTURE_HD_PID_2,
        Libusb_open ELGATO_VENDOR GAME_CAPTURE_HD_PID_3,
        Stderr ''This revision of the Elgato Game Capture HD is currently not supported.'',
        Stderr ''Unable to find device.'',
        Release_interface 0, Libusb_close, Libusb_exit, Close_fd 0,
        Unlink ''/tmp/elgato_gchd.ts'', Stderr ''Terminating.'']
   \<and> run_trace env_absent [] = Some
       [Signal_set SIGINT Handler, Signal_set SIGTERM Handler, Signal_set SIGPIPE SIG_IGN,
        Access FW_MB86H57_H58_IDLE, Access FW_MB86H57_H58_ENC, Libusb_init,
        Libusb_open ELGATO_VENDOR GAME_CAPTURE_HD_PID_0,
        Libusb_open ELGATO_VENDOR GAME_CAPTURE_HD_PID_1,
        Libusb_open ELGATO_VENDOR GAME_CAPTURE_HD_PID_2,
        Libusb_open ELGATO_VENDOR GAME_CAPTURE_HD_PID_3,
        Stderr ''Unable to find device.'',
        Libusb_exit, Close_fd 0, Unlink ''/tmp/elgato_gchd.ts'', Stderr ''Terminating.'']"
  by (simp add: env_defs model_defs const_defs Let_def)

lemma device_found_iff:
  "device_found e \<longleftrightarrow>
     first_match e \<noteq> None \<and> first_match e \<noteq> Some GAME_CAPTURE_HD_PID_3"
  by (simp add: device_found_def first_match_def candidates_def)

text \<open>
  C4, amended. When \<open>libusb_init\<close> succeeds, \<open>init_dev_handler\<close> tries the four identities
  in their fixed order and stops at the first that opens: the opens it makes are the
  candidates up to and including the first match (all four when none matches), and
  \<open>devh\<close> is the handle of the first match. It returns 0 when the first match is one of
  the first three identities and 1 otherwise. When the first match is the fourth
  identity it prints its own line about the unsupported revision and leaves the handle
  open in \<open>devh\<close>; when nothing matches it prints nothing and \<open>devh\<close> is \<open>NULL\<close>. In
  both cases the status is the same 1, and \<open>main\<close> goes to \<open>end\<close> with the same line
  \<open>Unable to find device.\<close>
\<close>

theorem init_dev_handler_first_match:
  assumes "usb_init_ret e = 0"
  shows "trace (snd (init_dev_handler e s)) =
           trace s @ Libusb_init # map (Libusb_open ELGATO_VENDOR) (tried e)
             @ (if first_match e = Some GAME_CAPTURE_HD_PID_3
                then [Stderr unsupported_message] else [])
       \<and> devh (snd (init_dev_handler e s)) = opened e
       \<and> (opened e = None \<longleftrightarrow> first_match e = None)
       \<and> fst (init_dev_handler e s) =
           (if first_match e = None \<or> first_match e = Some GAME_CAPTURE_HD_PID_3
            then 1 else 0)
       \<and> (firmware_ok e \<and> (first_match e = None \<or> first_match e = Some GAME_CAPTURE_HD_PID_3)
            \<longrightarrow> main_setup e s =
                  Inl (emit (Stderr ''Unable to find device.'')
                         (snd (init_dev_handler e (snd (firmware_missing e s))))))"
proof -
  have "fst (init_dev_handler e s) =
      (if first_match e = None \<or> first_match e = Some GAME_CAPTURE_HD_PID_3 then 1 else 0)"
    using assms by (simp add: init_dev_handler_fst device_found_iff)
  moreover have "firmware_ok e
      \<and> (first_match e = None \<or> first_match e = Some GAME_CAPTURE_HD_PID_3)
      \<longrightarrow> main_setup e s =
            Inl (emit (Stderr ''Unable to find device.'')
                   (snd (init_dev_handler e (snd (firmware_missing e s)))))"
    by (auto simp: main_setup_cases device_found_iff)
  ultimately show ?thesis
    using assms by (simp add: init_dev_handler_trace init_dev_handler_opened opened_None_iff)
qed

theorem init_dev_handler_first_match_witness:
  "usb_init_ret env_unsupported = 0
   \<and> first_match env_unsupported = Some GAME_CAPTURE_HD_PID_3
   \<and> trace (snd (init_dev_handler env_unsupported init_state)) =
       [Libusb_init, Libusb_open ELGATO_VENDOR GAME_CAPTURE_HD_PID_0,
        Libusb_open ELGATO_VENDOR GAME_CAPTURE_HD_PID_1,
        Libusb_open ELGATO_VENDOR GAME_CAPTURE_HD_PID_2,
        Libusb_open ELGATO_VENDOR GAME_CAPTURE_HD_PID_3, Stderr unsupported_message]
   \<and> devh (snd (init_dev_handler env_unsupported init_state)) = Some 7
   \<and> fst (init_dev_handler env_unsupported init_state) = 1"
proof -
  have i: "usb_init_ret env_unsupported = 0" by (simp add: env_defs)
  have f: "first_match env_unsupported = Some GAME_CAPTURE_HD_PID_3"
    by (simp add: first_match_def candidates_def env_defs)
  have t: "tried env_unsupported =
      [GAME_CAPTURE_HD_PID_0, GAME_CAPTURE_HD_PID_1, GAME_CAPTURE_HD_PID_2,
       GAME_CAPTURE_HD_PID_3]"
    unfolding tried_def f by (simp add: candidates_def)
  have "opened env_unsupported = Some 7"
    unfolding opened_def f by (simp add: env_defs)
  with init_dev_handler_first_match [OF i, of init_state] i f t show ?thesis
    by simp
qed

end
